theory Spec2Isabelle
  imports Main "HOL-Library.Char_ord"
begin

section \<open>Tokens (lexer.ts)\<close>

text \<open>
  \<open>TokenType\<close> is a TypeScript string enum: at run time every member is the string
  written after it, and the lexer and the parser compare members with \<open>===\<close>.
  The model keeps the run-time representation; each member is an abbreviation of its string.
\<close>

type_synonym TokenType = string

abbreviation TokenType_IDENTIFIER :: TokenType where "TokenType_IDENTIFIER \<equiv> ''IDENTIFIER''"
abbreviation TokenType_STRING :: TokenType where "TokenType_STRING \<equiv> ''STRING''"
abbreviation TokenType_INTEGER :: TokenType where "TokenType_INTEGER \<equiv> ''INTEGER''"
abbreviation TokenType_FLOAT :: TokenType where "TokenType_FLOAT \<equiv> ''FLOAT''"
abbreviation TokenType_BOOLEAN :: TokenType where "TokenType_BOOLEAN \<equiv> ''BOOLEAN''"
abbreviation TokenType_ADDRESS_LITERAL :: TokenType where "TokenType_ADDRESS_LITERAL \<equiv> ''ADDRESS_LITERAL''"
abbreviation TokenType_CONTRACT :: TokenType where "TokenType_CONTRACT \<equiv> ''CONTRACT''"
abbreviation TokenType_CONSTRUCTOR :: TokenType where "TokenType_CONSTRUCTOR \<equiv> ''CONSTRUCTOR''"
abbreviation TokenType_FN :: TokenType where "TokenType_FN \<equiv> ''FN''"
abbreviation TokenType_LET :: TokenType where "TokenType_LET \<equiv> ''LET''"
abbreviation TokenType_MUT :: TokenType where "TokenType_MUT \<equiv> ''MUT''"
abbreviation TokenType_CONST :: TokenType where "TokenType_CONST \<equiv> ''CONST''"
abbreviation TokenType_IF :: TokenType where "TokenType_IF \<equiv> ''IF''"
abbreviation TokenType_ELSE :: TokenType where "TokenType_ELSE \<equiv> ''ELSE''"
abbreviation TokenType_WHILE :: TokenType where "TokenType_WHILE \<equiv> ''WHILE''"
abbreviation TokenType_FOR :: TokenType where "TokenType_FOR \<equiv> ''FOR''"
abbreviation TokenType_IN :: TokenType where "TokenType_IN \<equiv> ''IN''"
abbreviation TokenType_RETURN :: TokenType where "TokenType_RETURN \<equiv> ''RETURN''"
abbreviation TokenType_BREAK :: TokenType where "TokenType_BREAK \<equiv> ''BREAK''"
abbreviation TokenType_CONTINUE :: TokenType where "TokenType_CONTINUE \<equiv> ''CONTINUE''"
abbreviation TokenType_MATCH :: TokenType where "TokenType_MATCH \<equiv> ''MATCH''"
abbreviation TokenType_ENUM :: TokenType where "TokenType_ENUM \<equiv> ''ENUM''"
abbreviation TokenType_STRUCT :: TokenType where "TokenType_STRUCT \<equiv> ''STRUCT''"
abbreviation TokenType_TRAIT :: TokenType where "TokenType_TRAIT \<equiv> ''TRAIT''"
abbreviation TokenType_IMPL :: TokenType where "TokenType_IMPL \<equiv> ''IMPL''"
abbreviation TokenType_MOD :: TokenType where "TokenType_MOD \<equiv> ''MOD''"
abbreviation TokenType_USE :: TokenType where "TokenType_USE \<equiv> ''USE''"
abbreviation TokenType_PUB :: TokenType where "TokenType_PUB \<equiv> ''PUB''"
abbreviation TokenType_PRIV :: TokenType where "TokenType_PRIV \<equiv> ''PRIV''"
abbreviation TokenType_EVENT :: TokenType where "TokenType_EVENT \<equiv> ''EVENT''"
abbreviation TokenType_EMIT :: TokenType where "TokenType_EMIT \<equiv> ''EMIT''"
abbreviation TokenType_REQUIRE :: TokenType where "TokenType_REQUIRE \<equiv> ''REQUIRE''"
abbreviation TokenType_ASSERT :: TokenType where "TokenType_ASSERT \<equiv> ''ASSERT''"
abbreviation TokenType_REVERT :: TokenType where "TokenType_REVERT \<equiv> ''REVERT''"
abbreviation TokenType_AS :: TokenType where "TokenType_AS \<equiv> ''AS''"
abbreviation TokenType_INDEXED :: TokenType where "TokenType_INDEXED \<equiv> ''INDEXED''"
abbreviation TokenType_INDEX :: TokenType where "TokenType_INDEX \<equiv> ''INDEX''"
abbreviation TokenType_QUERY :: TokenType where "TokenType_QUERY \<equiv> ''QUERY''"
abbreviation TokenType_FROM :: TokenType where "TokenType_FROM \<equiv> ''FROM''"
abbreviation TokenType_WHERE :: TokenType where "TokenType_WHERE \<equiv> ''WHERE''"
abbreviation TokenType_ORDER_BY :: TokenType where "TokenType_ORDER_BY \<equiv> ''ORDER_BY''"
abbreviation TokenType_LIMIT :: TokenType where "TokenType_LIMIT \<equiv> ''LIMIT''"
abbreviation TokenType_SOURCE :: TokenType where "TokenType_SOURCE \<equiv> ''SOURCE''"
abbreviation TokenType_MAP :: TokenType where "TokenType_MAP \<equiv> ''MAP''"
abbreviation TokenType_EVENTS :: TokenType where "TokenType_EVENTS \<equiv> ''EVENTS''"
abbreviation TokenType_ASC :: TokenType where "TokenType_ASC \<equiv> ''ASC''"
abbreviation TokenType_DESC :: TokenType where "TokenType_DESC \<equiv> ''DESC''"
abbreviation TokenType_ETHEREUM :: TokenType where "TokenType_ETHEREUM \<equiv> ''ETHEREUM''"
abbreviation TokenType_SOLANA :: TokenType where "TokenType_SOLANA \<equiv> ''SOLANA''"
abbreviation TokenType_AUGUSTIUM :: TokenType where "TokenType_AUGUSTIUM \<equiv> ''AUGUSTIUM''"
abbreviation TokenType_MAINNET :: TokenType where "TokenType_MAINNET \<equiv> ''MAINNET''"
abbreviation TokenType_TESTNET :: TokenType where "TokenType_TESTNET \<equiv> ''TESTNET''"
abbreviation TokenType_U8 :: TokenType where "TokenType_U8 \<equiv> ''U8''"
abbreviation TokenType_U16 :: TokenType where "TokenType_U16 \<equiv> ''U16''"
abbreviation TokenType_U32 :: TokenType where "TokenType_U32 \<equiv> ''U32''"
abbreviation TokenType_U64 :: TokenType where "TokenType_U64 \<equiv> ''U64''"
abbreviation TokenType_U128 :: TokenType where "TokenType_U128 \<equiv> ''U128''"
abbreviation TokenType_U256 :: TokenType where "TokenType_U256 \<equiv> ''U256''"
abbreviation TokenType_I8 :: TokenType where "TokenType_I8 \<equiv> ''I8''"
abbreviation TokenType_I16 :: TokenType where "TokenType_I16 \<equiv> ''I16''"
abbreviation TokenType_I32 :: TokenType where "TokenType_I32 \<equiv> ''I32''"
abbreviation TokenType_I64 :: TokenType where "TokenType_I64 \<equiv> ''I64''"
abbreviation TokenType_I128 :: TokenType where "TokenType_I128 \<equiv> ''I128''"
abbreviation TokenType_I256 :: TokenType where "TokenType_I256 \<equiv> ''I256''"
abbreviation TokenType_BOOL :: TokenType where "TokenType_BOOL \<equiv> ''BOOL''"
abbreviation TokenType_STRING_TYPE :: TokenType where "TokenType_STRING_TYPE \<equiv> ''STRING_TYPE''"
abbreviation TokenType_ADDRESS :: TokenType where "TokenType_ADDRESS \<equiv> ''ADDRESS''"
abbreviation TokenType_BYTES :: TokenType where "TokenType_BYTES \<equiv> ''BYTES''"
abbreviation TokenType_MLModel :: TokenType where "TokenType_MLModel \<equiv> ''ML_MODEL''"
abbreviation TokenType_MLTrain :: TokenType where "TokenType_MLTrain \<equiv> ''ML_TRAIN''"
abbreviation TokenType_MLPredict :: TokenType where "TokenType_MLPredict \<equiv> ''ML_PREDICT''"
abbreviation TokenType_MLForward :: TokenType where "TokenType_MLForward \<equiv> ''ML_FORWARD''"
abbreviation TokenType_MLBackward :: TokenType where "TokenType_MLBackward \<equiv> ''ML_BACKWARD''"
abbreviation TokenType_Tensor :: TokenType where "TokenType_Tensor \<equiv> ''TENSOR''"
abbreviation TokenType_Matrix :: TokenType where "TokenType_Matrix \<equiv> ''MATRIX''"
abbreviation TokenType_Vector :: TokenType where "TokenType_Vector \<equiv> ''VECTOR''"
abbreviation TokenType_Metrics :: TokenType where "TokenType_Metrics \<equiv> ''METRICS''"
abbreviation TokenType_MLConv2D :: TokenType where "TokenType_MLConv2D \<equiv> ''ML_CONV2D''"
abbreviation TokenType_MLAttention :: TokenType where "TokenType_MLAttention \<equiv> ''ML_ATTENTION''"
abbreviation TokenType_MLClone :: TokenType where "TokenType_MLClone \<equiv> ''ML_CLONE''"
abbreviation TokenType_MLQuantize :: TokenType where "TokenType_MLQuantize \<equiv> ''ML_QUANTIZE''"
abbreviation TokenType_MLEvaluate :: TokenType where "TokenType_MLEvaluate \<equiv> ''ML_EVALUATE''"
abbreviation TokenType_MLExport :: TokenType where "TokenType_MLExport \<equiv> ''ML_EXPORT''"
abbreviation TokenType_MLSync :: TokenType where "TokenType_MLSync \<equiv> ''ML_SYNC''"
abbreviation TokenType_MLAugment :: TokenType where "TokenType_MLAugment \<equiv> ''ML_AUGMENT''"
abbreviation TokenType_MLLoadDataset :: TokenType where "TokenType_MLLoadDataset \<equiv> ''ML_LOAD_DATASET''"
abbreviation TokenType_MLConfusionMatrix :: TokenType where "TokenType_MLConfusionMatrix \<equiv> ''ML_CONFUSION_MATRIX''"
abbreviation TokenType_CreateTensor :: TokenType where "TokenType_CreateTensor \<equiv> ''CREATE_TENSOR''"
abbreviation TokenType_CreateVector :: TokenType where "TokenType_CreateVector \<equiv> ''CREATE_VECTOR''"
abbreviation TokenType_CreateMatrix :: TokenType where "TokenType_CreateMatrix \<equiv> ''CREATE_MATRIX''"
abbreviation TokenType_Plus :: TokenType where "TokenType_Plus \<equiv> ''PLUS''"
abbreviation TokenType_Minus :: TokenType where "TokenType_Minus \<equiv> ''MINUS''"
abbreviation TokenType_Star :: TokenType where "TokenType_Star \<equiv> ''STAR''"
abbreviation TokenType_Slash :: TokenType where "TokenType_Slash \<equiv> ''SLASH''"
abbreviation TokenType_Percent :: TokenType where "TokenType_Percent \<equiv> ''PERCENT''"
abbreviation TokenType_Equal :: TokenType where "TokenType_Equal \<equiv> ''EQUAL''"
abbreviation TokenType_EqualEqual :: TokenType where "TokenType_EqualEqual \<equiv> ''EQUAL_EQUAL''"
abbreviation TokenType_NotEqual :: TokenType where "TokenType_NotEqual \<equiv> ''NOT_EQUAL''"
abbreviation TokenType_Less :: TokenType where "TokenType_Less \<equiv> ''LESS''"
abbreviation TokenType_LessEqual :: TokenType where "TokenType_LessEqual \<equiv> ''LESS_EQUAL''"
abbreviation TokenType_Greater :: TokenType where "TokenType_Greater \<equiv> ''GREATER''"
abbreviation TokenType_GreaterEqual :: TokenType where "TokenType_GreaterEqual \<equiv> ''GREATER_EQUAL''"
abbreviation TokenType_And :: TokenType where "TokenType_And \<equiv> ''AND''"
abbreviation TokenType_Or :: TokenType where "TokenType_Or \<equiv> ''OR''"
abbreviation TokenType_Not :: TokenType where "TokenType_Not \<equiv> ''NOT''"
abbreviation TokenType_BitAnd :: TokenType where "TokenType_BitAnd \<equiv> ''BIT_AND''"
abbreviation TokenType_BitOr :: TokenType where "TokenType_BitOr \<equiv> ''BIT_OR''"
abbreviation TokenType_BitXor :: TokenType where "TokenType_BitXor \<equiv> ''BIT_XOR''"
abbreviation TokenType_BitNot :: TokenType where "TokenType_BitNot \<equiv> ''BIT_NOT''"
abbreviation TokenType_LeftShift :: TokenType where "TokenType_LeftShift \<equiv> ''LEFT_SHIFT''"
abbreviation TokenType_RightShift :: TokenType where "TokenType_RightShift \<equiv> ''RIGHT_SHIFT''"
abbreviation TokenType_PlusEqual :: TokenType where "TokenType_PlusEqual \<equiv> ''PLUS_EQUAL''"
abbreviation TokenType_MinusEqual :: TokenType where "TokenType_MinusEqual \<equiv> ''MINUS_EQUAL''"
abbreviation TokenType_StarEqual :: TokenType where "TokenType_StarEqual \<equiv> ''STAR_EQUAL''"
abbreviation TokenType_SlashEqual :: TokenType where "TokenType_SlashEqual \<equiv> ''SLASH_EQUAL''"
abbreviation TokenType_LeftParen :: TokenType where "TokenType_LeftParen \<equiv> ''LEFT_PAREN''"
abbreviation TokenType_RightParen :: TokenType where "TokenType_RightParen \<equiv> ''RIGHT_PAREN''"
abbreviation TokenType_LeftBrace :: TokenType where "TokenType_LeftBrace \<equiv> ''LEFT_BRACE''"
abbreviation TokenType_RightBrace :: TokenType where "TokenType_RightBrace \<equiv> ''RIGHT_BRACE''"
abbreviation TokenType_LeftBracket :: TokenType where "TokenType_LeftBracket \<equiv> ''LEFT_BRACKET''"
abbreviation TokenType_RightBracket :: TokenType where "TokenType_RightBracket \<equiv> ''RIGHT_BRACKET''"
abbreviation TokenType_Semicolon :: TokenType where "TokenType_Semicolon \<equiv> ''SEMICOLON''"
abbreviation TokenType_Comma :: TokenType where "TokenType_Comma \<equiv> ''COMMA''"
abbreviation TokenType_Dot :: TokenType where "TokenType_Dot \<equiv> ''DOT''"
abbreviation TokenType_Colon :: TokenType where "TokenType_Colon \<equiv> ''COLON''"
abbreviation TokenType_DoubleColon :: TokenType where "TokenType_DoubleColon \<equiv> ''DOUBLE_COLON''"
abbreviation TokenType_Arrow :: TokenType where "TokenType_Arrow \<equiv> ''ARROW''"
abbreviation TokenType_FatArrow :: TokenType where "TokenType_FatArrow \<equiv> ''FAT_ARROW''"
abbreviation TokenType_Question :: TokenType where "TokenType_Question \<equiv> ''QUESTION''"
abbreviation TokenType_At :: TokenType where "TokenType_At \<equiv> ''AT''"
abbreviation TokenType_Hash :: TokenType where "TokenType_Hash \<equiv> ''HASH''"
abbreviation TokenType_Dollar :: TokenType where "TokenType_Dollar \<equiv> ''DOLLAR''"
abbreviation TokenType_Underscore :: TokenType where "TokenType_Underscore \<equiv> ''UNDERSCORE''"
abbreviation TokenType_Newline :: TokenType where "TokenType_Newline \<equiv> ''NEWLINE''"
abbreviation TokenType_EOF :: TokenType where "TokenType_EOF \<equiv> ''EOF''"
abbreviation TokenType_LineComment :: TokenType where "TokenType_LineComment \<equiv> ''LINE_COMMENT''"
abbreviation TokenType_BlockComment :: TokenType where "TokenType_BlockComment \<equiv> ''BLOCK_COMMENT''"

record Token =
  tok_type :: TokenType
  tok_value :: string
  tok_line :: nat
  tok_column :: nat
  tok_start :: nat
  tok_end :: nat

text \<open>
  What the source throws. \<open>Error\<close> is the plain JavaScript \<open>Error\<close> of the lexer,
  \<open>ParseError\<close> the parser's subclass (message and offending token), \<open>TypeError\<close> what
  the run time raises on reading a property of \<open>undefined\<close> (a token index out of range),
  \<open>SyntaxError\<close> what \<open>BigInt\<close> raises on a string that is no integer literal.
\<close>

datatype exn =
    Error string
  | ParseError string Token
  | TypeError string
  | SyntaxError string

section \<open>Strings of the run time\<close>

fun digit_char :: "nat \<Rightarrow> char" where
  "digit_char n = char_of (48 + n)"

fun string_of_nat :: "nat \<Rightarrow> string" where
  "string_of_nat n = (if n < 10 then [digit_char n] else string_of_nat (n div 10) @ [digit_char (n mod 10)])"

declare string_of_nat.simps [simp del]

text \<open>\<open>String.prototype.substring\<close>: both indices are clamped to the length and swapped when out of order.\<close>

definition substring :: "string \<Rightarrow> nat \<Rightarrow> nat \<Rightarrow> string" where
  "substring s a b =
     (let a' = min a (length s); b' = min b (length s);
          lo = min a' b'; hi = max a' b'
      in take (hi - lo) (drop lo s))"

section \<open>Lexer (lexer.ts)\<close>

record Lexer =
  input :: string
  position :: nat
  line :: nat
  column :: nat

definition keywords_table :: "(string \<times> TokenType) list" where
  "keywords_table =
  [(''contract'', TokenType_CONTRACT),
   (''constructor'', TokenType_CONSTRUCTOR),
   (''fn'', TokenType_FN),
   (''let'', TokenType_LET),
   (''mut'', TokenType_MUT),
   (''const'', TokenType_CONST),
   (''if'', TokenType_IF),
   (''else'', TokenType_ELSE),
   (''while'', TokenType_WHILE),
   (''for'', TokenType_FOR),
   (''in'', TokenType_IN),
   (''return'', TokenType_RETURN),
   (''break'', TokenType_BREAK),
   (''continue'', TokenType_CONTINUE),
   (''match'', TokenType_MATCH),
   (''enum'', TokenType_ENUM),
   (''struct'', TokenType_STRUCT),
   (''trait'', TokenType_TRAIT),
   (''impl'', TokenType_IMPL),
   (''mod'', TokenType_MOD),
   (''use'', TokenType_USE),
   (''pub'', TokenType_PUB),
   (''priv'', TokenType_PRIV),
   (''event'', TokenType_EVENT),
   (''emit'', TokenType_EMIT),
   (''require'', TokenType_REQUIRE),
   (''assert'', TokenType_ASSERT),
   (''revert'', TokenType_REVERT),
   (''as'', TokenType_AS),
   (''indexed'', TokenType_INDEXED),
   (''ml_model'', TokenType_MLModel),
   (''ml_train'', TokenType_MLTrain),
   (''ml_predict'', TokenType_MLPredict),
   (''ml_forward'', TokenType_MLForward),
   (''ml_backward'', TokenType_MLBackward),
   (''tensor'', TokenType_Tensor),
   (''matrix'', TokenType_Matrix),
   (''vector'', TokenType_Vector),
   (''metrics'', TokenType_Metrics),
   (''ml_conv2d'', TokenType_MLConv2D),
   (''ml_attention'', TokenType_MLAttention),
   (''ml_clone'', TokenType_MLClone),
   (''ml_quantize'', TokenType_MLQuantize),
   (''ml_evaluate'', TokenType_MLEvaluate),
   (''ml_export'', TokenType_MLExport),
   (''ml_sync'', TokenType_MLSync),
   (''ml_augment'', TokenType_MLAugment),
   (''ml_load_dataset'', TokenType_MLLoadDataset),
   (''ml_confusion_matrix'', TokenType_MLConfusionMatrix),
   (''create_tensor'', TokenType_CreateTensor),
   (''create_vector'', TokenType_CreateVector),
   (''create_matrix'', TokenType_CreateMatrix),
   (''index'', TokenType_INDEX),
   (''query'', TokenType_QUERY),
   (''from'', TokenType_FROM),
   (''where'', TokenType_WHERE),
   (''order_by'', TokenType_ORDER_BY),
   (''limit'', TokenType_LIMIT),
   (''source'', TokenType_SOURCE),
   (''map'', TokenType_MAP),
   (''events'', TokenType_EVENTS),
   (''asc'', TokenType_ASC),
   (''desc'', TokenType_DESC),
   (''Ethereum'', TokenType_ETHEREUM),
   (''Solana'', TokenType_SOLANA),
   (''Augustium'', TokenType_AUGUSTIUM),
   (''Mainnet'', TokenType_MAINNET),
   (''Testnet'', TokenType_TESTNET),
   (''u8'', TokenType_U8),
   (''u16'', TokenType_U16),
   (''u32'', TokenType_U32),
   (''u64'', TokenType_U64),
   (''u128'', TokenType_U128),
   (''u256'', TokenType_U256),
   (''i8'', TokenType_I8),
   (''i16'', TokenType_I16),
   (''i32'', TokenType_I32),
   (''i64'', TokenType_I64),
   (''i128'', TokenType_I128),
   (''i256'', TokenType_I256),
   (''bool'', TokenType_BOOL),
   (''String'', TokenType_STRING_TYPE),
   (''Address'', TokenType_ADDRESS),
   (''Bytes'', TokenType_BYTES),
   (''true'', TokenType_BOOLEAN),
   (''false'', TokenType_BOOLEAN)]"

definition new_Lexer :: "string \<Rightarrow> Lexer" where
  "new_Lexer inp = \<lparr>input = inp, position = 0, line = 1, column = 1\<rparr>"

definition isAtEnd :: "Lexer \<Rightarrow> bool" where
  "isAtEnd L = (position L \<ge> length (input L))"

definition peek :: "Lexer \<Rightarrow> char" where
  "peek L = (if isAtEnd L then CHR 0x00 else input L ! position L)"

definition peekNext :: "Lexer \<Rightarrow> char" where
  "peekNext L = (if position L + 1 \<ge> length (input L) then CHR 0x00 else input L ! (position L + 1))"

definition advance :: "Lexer \<Rightarrow> char \<times> Lexer" where
  "advance L =
     (if isAtEnd L then (CHR 0x00, L)
      else (input L ! position L, L\<lparr>position := position L + 1, column := column L + 1\<rparr>))"

definition isDigit :: "char \<Rightarrow> bool" where
  "isDigit c = (c \<ge> CHR ''0'' \<and> c \<le> CHR ''9'')"

definition isAlpha :: "char \<Rightarrow> bool" where
  "isAlpha c = ((c \<ge> CHR ''a'' \<and> c \<le> CHR ''z'') \<or> (c \<ge> CHR ''A'' \<and> c \<le> CHR ''Z'') \<or> c = CHR ''_'')"

definition isAlphaNumeric :: "char \<Rightarrow> bool" where
  "isAlphaNumeric c = (isAlpha c \<or> isDigit c)"

definition isHexDigit :: "char \<Rightarrow> bool" where
  "isHexDigit c = (isDigit c \<or> (c \<ge> CHR ''a'' \<and> c \<le> CHR ''f'') \<or> (c \<ge> CHR ''A'' \<and> c \<le> CHR ''F''))"

definition makeToken :: "Lexer \<Rightarrow> TokenType \<Rightarrow> string \<Rightarrow> nat \<Rightarrow> nat \<Rightarrow> nat \<Rightarrow> Token" where
  "makeToken L ty v st ln col =
     \<lparr>tok_type = ty, tok_value = v, tok_line = ln, tok_column = col, tok_start = st, tok_end = position L\<rparr>"

text \<open>The number of characters still to read: the measure of every loop of the lexer.\<close>

definition remaining :: "Lexer \<Rightarrow> nat" where
  "remaining L = length (input L) - position L"

lemma advance_remaining: "\<not> isAtEnd L \<Longrightarrow> remaining (snd (advance L)) < remaining L"
  by (auto simp: advance_def isAtEnd_def remaining_def)

lemma peek_not_nul: "peek L \<noteq> CHR 0x00 \<Longrightarrow> \<not> isAtEnd L"
  by (auto simp: peek_def)

function skipWhitespace :: "Lexer \<Rightarrow> Lexer" where
  "skipWhitespace L =
     (let c = peek L in
      if c = CHR '' '' \<or> c = CHR 0x0D \<or> c = CHR 0x09 then skipWhitespace (snd (advance L))
      else L)"
  by pat_completeness auto
termination
  by (relation "measure remaining") (auto intro!: advance_remaining peek_not_nul)

declare skipWhitespace.simps [simp del]

text \<open>The loops that only advance: \<open>while (cond) this.advance()\<close>.\<close>

function readComment_loop :: "Lexer \<Rightarrow> Lexer" where
  "readComment_loop L =
     (if peek L \<noteq> CHR 0x0A \<and> \<not> isAtEnd L then readComment_loop (snd (advance L)) else L)"
  by pat_completeness auto
termination
  by (relation "measure remaining") (auto intro!: advance_remaining)

declare readComment_loop.simps [simp del]

definition readComment :: "Lexer \<Rightarrow> nat \<Rightarrow> nat \<Rightarrow> nat \<Rightarrow> Token \<times> Lexer" where
  "readComment L st ln col =
     (let L1 = readComment_loop L;
          v = substring (input L1) st (position L1)
      in (makeToken L1 TokenType_LineComment v st ln col, L1))"

function readString_loop :: "char \<Rightarrow> Lexer \<Rightarrow> Lexer" where
  "readString_loop quote L =
     (if peek L \<noteq> quote \<and> \<not> isAtEnd L then
        (let L1 = (if peek L = CHR 0x0A then L\<lparr>line := line L + 1, column := 1\<rparr> else L);
             L2 = (if peek L1 = CHR 0x5C then snd (advance L1) else L1)
         in readString_loop quote (snd (advance L2)))
      else L)"
  by pat_completeness auto

lemma isAtEnd_line_update [simp]: "isAtEnd (L\<lparr>line := l, column := c\<rparr>) = isAtEnd L"
  by (simp add: isAtEnd_def)

lemma remaining_line_update [simp]: "remaining (L\<lparr>line := l, column := c\<rparr>) = remaining L"
  by (simp add: remaining_def)

lemma advance_remaining_le: "remaining (snd (advance L)) \<le> remaining L"
  by (auto simp: advance_def isAtEnd_def remaining_def)

termination readString_loop
proof (relation "measure (\<lambda>(q, L). remaining L)", goal_cases)
  case 1
  show ?case by simp
next
  case (2 quote L L1 L2)
  have ne: "\<not> isAtEnd L1" using 2 by (auto split: if_splits)
  have r1: "remaining L1 = remaining L" using 2 by (auto split: if_splits)
  have "remaining (snd (advance L2)) < remaining L1"
  proof (cases "peek L1 = CHR 0x5C")
    case True
    then have "L2 = snd (advance L1)" using 2 by simp
    then show ?thesis
      using advance_remaining [OF ne] advance_remaining_le [of "snd (advance L1)"] by simp
  next
    case False
    then have "L2 = L1" using 2 by simp
    then show ?thesis using advance_remaining [OF ne] by simp
  qed
  then show ?case using r1 by simp
qed

declare readString_loop.simps [simp del]


definition readString :: "Lexer \<Rightarrow> nat \<Rightarrow> nat \<Rightarrow> nat \<Rightarrow> exn + Token \<times> Lexer" where
  "readString L st ln col =
     (let (quote, L1) = advance L;
          L2 = readString_loop quote L1
      in if isAtEnd L2 then
           Inl (Error (''Unterminated string at line '' @ string_of_nat ln @ '', column '' @ string_of_nat col))
         else
           (let L3 = snd (advance L2);
                v = substring (input L3) (st + 1) (position L3 - 1)
            in Inr (makeToken L3 TokenType_STRING v st ln col, L3)))"

lemma isDigit_not_atEnd: "isDigit (peek L) \<Longrightarrow> \<not> isAtEnd L"
  by (auto simp: peek_def isDigit_def)

function readNumber_digits :: "Lexer \<Rightarrow> Lexer" where
  "readNumber_digits L = (if isDigit (peek L) then readNumber_digits (snd (advance L)) else L)"
  by pat_completeness auto
termination
  by (relation "measure remaining") (auto intro!: advance_remaining isDigit_not_atEnd)

declare readNumber_digits.simps [simp del]

definition readNumber :: "Lexer \<Rightarrow> nat \<Rightarrow> nat \<Rightarrow> nat \<Rightarrow> Token \<times> Lexer" where
  "readNumber L st ln col =
     (let L1 = readNumber_digits L in
      if peek L1 = CHR ''.'' \<and> isDigit (peekNext L1) then
        (let L2 = snd (advance L1);
             L3 = readNumber_digits L2;
             v = substring (input L3) st (position L3)
         in (makeToken L3 TokenType_FLOAT v st ln col, L3))
      else
        (let v = substring (input L1) st (position L1)
         in (makeToken L1 TokenType_INTEGER v st ln col, L1)))"

lemma isHexDigit_not_atEnd: "isHexDigit (peek L) \<Longrightarrow> \<not> isAtEnd L"
  by (auto simp: peek_def isHexDigit_def isDigit_def)

function readAddressLiteral_loop :: "Lexer \<Rightarrow> Lexer" where
  "readAddressLiteral_loop L =
     (if isHexDigit (peek L) then readAddressLiteral_loop (snd (advance L)) else L)"
  by pat_completeness auto
termination
  by (relation "measure remaining") (auto intro!: advance_remaining isHexDigit_not_atEnd)

declare readAddressLiteral_loop.simps [simp del]

definition readAddressLiteral :: "Lexer \<Rightarrow> nat \<Rightarrow> nat \<Rightarrow> nat \<Rightarrow> Token \<times> Lexer" where
  "readAddressLiteral L st ln col =
     (let L1 = snd (advance L);
          L2 = snd (advance L1);
          L3 = readAddressLiteral_loop L2;
          v = substring (input L3) st (position L3)
      in (makeToken L3 TokenType_ADDRESS_LITERAL v st ln col, L3))"

lemma isAlphaNumeric_not_atEnd: "isAlphaNumeric (peek L) \<or> peek L = CHR ''_'' \<Longrightarrow> \<not> isAtEnd L"
  by (auto simp: peek_def isAlphaNumeric_def isAlpha_def isDigit_def)

function readIdentifier_loop :: "Lexer \<Rightarrow> Lexer" where
  "readIdentifier_loop L =
     (if isAlphaNumeric (peek L) \<or> peek L = CHR ''_'' then readIdentifier_loop (snd (advance L)) else L)"
  by pat_completeness auto
termination
  by (relation "measure remaining") (auto intro!: advance_remaining isAlphaNumeric_not_atEnd)

declare readIdentifier_loop.simps [simp del]

definition readIdentifier :: "Lexer \<Rightarrow> nat \<Rightarrow> nat \<Rightarrow> nat \<Rightarrow> Token \<times> Lexer" where
  "readIdentifier L st ln col =
     (let L1 = readIdentifier_loop L;
          v = substring (input L1) st (position L1);
          tokenType = (case map_of keywords_table v of Some t \<Rightarrow> t | None \<Rightarrow> TokenType_IDENTIFIER)
      in (makeToken L1 tokenType v st ln col, L1))"

text \<open>
  \<open>nextToken\<close>: the token read (\<open>None\<close> for the source's \<open>null\<close>, at the end of the input after
  white space) and the lexer after it, or the error thrown. The branches are in the source's order.
\<close>

definition nextToken :: "Lexer \<Rightarrow> exn + Token option \<times> Lexer" where
  "nextToken L0 =
     (let L = skipWhitespace L0 in
      if isAtEnd L then Inr (None, L)
      else
        (let st = position L; ln = line L; col = column L; c = peek L in
         if c = CHR ''/'' \<and> peekNext L = CHR ''/'' then
           (case readComment L st ln col of (t, L') \<Rightarrow> Inr (Some t, L'))
         else if c = CHR 0x22 \<or> c = CHR 0x27 then
           (case readString L st ln col of Inl e \<Rightarrow> Inl e | Inr (t, L') \<Rightarrow> Inr (Some t, L'))
         else if isDigit c then
           (case readNumber L st ln col of (t, L') \<Rightarrow> Inr (Some t, L'))
         else if c = CHR ''0'' \<and> peekNext L = CHR ''x'' then
           (case readAddressLiteral L st ln col of (t, L') \<Rightarrow> Inr (Some t, L'))
         else if isAlpha c \<or> c = CHR ''_'' then
           (case readIdentifier L st ln col of (t, L') \<Rightarrow> Inr (Some t, L'))
         else if c = CHR ''='' \<and> peekNext L = CHR ''='' then
           (let L2 = snd (advance (snd (advance L))) in Inr (Some (makeToken L2 TokenType_EqualEqual ''=='' st ln col), L2))
         else if c = CHR ''!'' \<and> peekNext L = CHR ''='' then
           (let L2 = snd (advance (snd (advance L))) in Inr (Some (makeToken L2 TokenType_NotEqual ''!='' st ln col), L2))
         else if c = CHR ''>'' \<and> peekNext L = CHR ''='' then
           (let L2 = snd (advance (snd (advance L))) in Inr (Some (makeToken L2 TokenType_GreaterEqual ''>='' st ln col), L2))
         else if c = CHR ''<'' \<and> peekNext L = CHR ''='' then
           (let L2 = snd (advance (snd (advance L))) in Inr (Some (makeToken L2 TokenType_LessEqual ''<='' st ln col), L2))
         else if c = CHR ''='' \<and> peekNext L = CHR ''>'' then
           (let L2 = snd (advance (snd (advance L))) in Inr (Some (makeToken L2 TokenType_FatArrow ''=>'' st ln col), L2))
         else
           (let (singleChar, L1) = advance L in
            if singleChar = CHR ''{'' then Inr (Some (makeToken L1 TokenType_LeftBrace [singleChar] st ln col), L1)
            else if singleChar = CHR ''}'' then Inr (Some (makeToken L1 TokenType_RightBrace [singleChar] st ln col), L1)
            else if singleChar = CHR ''('' then Inr (Some (makeToken L1 TokenType_LeftParen [singleChar] st ln col), L1)
            else if singleChar = CHR '')'' then Inr (Some (makeToken L1 TokenType_RightParen [singleChar] st ln col), L1)
            else if singleChar = CHR ''['' then Inr (Some (makeToken L1 TokenType_LeftBracket [singleChar] st ln col), L1)
            else if singleChar = CHR '']'' then Inr (Some (makeToken L1 TokenType_RightBracket [singleChar] st ln col), L1)
            else if singleChar = CHR '','' then Inr (Some (makeToken L1 TokenType_Comma [singleChar] st ln col), L1)
            else if singleChar = CHR '':'' then Inr (Some (makeToken L1 TokenType_Colon [singleChar] st ln col), L1)
            else if singleChar = CHR '';'' then Inr (Some (makeToken L1 TokenType_Semicolon [singleChar] st ln col), L1)
            else if singleChar = CHR ''.'' then Inr (Some (makeToken L1 TokenType_Dot [singleChar] st ln col), L1)
            else if singleChar = CHR ''='' then Inr (Some (makeToken L1 TokenType_Equal [singleChar] st ln col), L1)
            else if singleChar = CHR ''>'' then Inr (Some (makeToken L1 TokenType_Greater [singleChar] st ln col), L1)
            else if singleChar = CHR ''<'' then Inr (Some (makeToken L1 TokenType_Less [singleChar] st ln col), L1)
            else if singleChar = CHR 0x0A then
              (let L2 = L1\<lparr>line := line L1 + 1, column := 1\<rparr>
               in Inr (Some (makeToken L2 TokenType_Newline [singleChar] st ln col), L2))
            else
              Inl (Error (''Unexpected character '' @ [CHR 0x27, singleChar, CHR 0x27] @ '' at line ''
                          @ string_of_nat ln @ '', column '' @ string_of_nat col)))))"

text \<open>Every loop of the lexer keeps the input and never moves the position back.\<close>

definition forward :: "Lexer \<Rightarrow> Lexer \<Rightarrow> bool" where
  "forward L L' = (input L' = input L \<and> position L \<le> position L')"

lemma forward_refl [simp]: "forward L L"
  by (simp add: forward_def)

lemma forward_trans: "forward L L1 \<Longrightarrow> forward L1 L2 \<Longrightarrow> forward L L2"
  by (auto simp: forward_def)

lemma forward_advance: "forward L (snd (advance L))"
  by (auto simp: forward_def advance_def)

lemma forward_line_update [simp]: "forward L (L'\<lparr>line := l, column := c\<rparr>) = forward L L'"
  by (simp add: forward_def)

lemma forward_line_update2 [simp]: "forward (L\<lparr>line := l, column := c\<rparr>) L' = forward L L'"
  by (simp add: forward_def)

lemma advance_strict:
  "\<not> isAtEnd L \<Longrightarrow> input (snd (advance L)) = input L \<and> position (snd (advance L)) = position L + 1"
  by (simp add: advance_def)

lemma forward_skipWhitespace: "forward L (skipWhitespace L)"
proof (induction L rule: skipWhitespace.induct)
  case (1 L)
  show ?case
    using 1 forward_advance [of L]
    by (subst skipWhitespace.simps) (auto simp: Let_def intro: forward_trans)
qed

lemma forward_readComment_loop: "forward L (readComment_loop L)"
proof (induction L rule: readComment_loop.induct)
  case (1 L)
  show ?case
    using 1 forward_advance [of L]
    by (subst readComment_loop.simps) (auto intro: forward_trans)
qed

lemma forward_readNumber_digits: "forward L (readNumber_digits L)"
proof (induction L rule: readNumber_digits.induct)
  case (1 L)
  show ?case
    using 1 forward_advance [of L]
    by (subst readNumber_digits.simps) (auto intro: forward_trans)
qed

lemma forward_readAddressLiteral_loop: "forward L (readAddressLiteral_loop L)"
proof (induction L rule: readAddressLiteral_loop.induct)
  case (1 L)
  show ?case
    using 1 forward_advance [of L]
    by (subst readAddressLiteral_loop.simps) (auto intro: forward_trans)
qed

lemma forward_readIdentifier_loop: "forward L (readIdentifier_loop L)"
proof (induction L rule: readIdentifier_loop.induct)
  case (1 L)
  show ?case
    using 1 forward_advance [of L]
    by (subst readIdentifier_loop.simps) (auto intro: forward_trans)
qed

lemma forward_readString_loop: "forward L (readString_loop q L)"
proof (induction q L rule: readString_loop.induct)
  case (1 quote L)
  show ?case
  proof (cases "peek L \<noteq> quote \<and> \<not> isAtEnd L")
    case False
    then show ?thesis by (subst readString_loop.simps) auto
  next
    case True
    define L1 where "L1 = (if peek L = CHR 0x0A then L\<lparr>line := line L + 1, column := 1\<rparr> else L)"
    define L2 where "L2 = (if peek L1 = CHR 0x5C then snd (advance L1) else L1)"
    have f1: "forward L L1" by (simp add: L1_def)
    have f2: "forward L1 L2" by (simp add: L2_def forward_advance)
    have f3: "forward L2 (snd (advance L2))" by (rule forward_advance)
    have ih: "forward (snd (advance L2)) (readString_loop quote (snd (advance L2)))"
      using 1 [OF True L1_def L2_def] .
    have "readString_loop quote L = readString_loop quote (snd (advance L2))"
      using True by (subst readString_loop.simps) (simp add: L1_def L2_def Let_def)
    then show ?thesis
      using f1 f2 f3 ih by (auto intro: forward_trans)
  qed
qed

text \<open>\<open>progress L L'\<close>: the same input, read strictly further.\<close>

definition progress :: "Lexer \<Rightarrow> Lexer \<Rightarrow> bool" where
  "progress L L' = (input L' = input L \<and> position L < position L')"

lemma loop_first_step:
  assumes "\<not> isAtEnd L" "forward (snd (advance L)) L'"
  shows "progress L L'"
  using assms advance_strict [of L] by (auto simp: forward_def progress_def)

lemma progress_line_update [simp]: "progress L (L'\<lparr>line := l, column := c\<rparr>) = progress L L'"
  by (simp add: progress_def)

lemma progress_advance: "\<not> isAtEnd L \<Longrightarrow> progress L (snd (advance L))"
  by (rule loop_first_step) simp_all

lemma progress_advance2: "\<not> isAtEnd L \<Longrightarrow> progress L (snd (advance (snd (advance L))))"
  by (rule loop_first_step, assumption) (rule forward_advance)

lemma readComment_progress:
  "\<not> isAtEnd L \<Longrightarrow> peek L = CHR ''/'' \<Longrightarrow> progress L (snd (readComment L st ln col))"
  apply (rule loop_first_step, assumption)
  apply (subst readComment_def)
  apply (subst readComment_loop.simps)
  apply (simp add: Let_def forward_readComment_loop)
  done

lemma readString_progress:
  "\<not> isAtEnd L \<Longrightarrow> readString L st ln col = Inr (t, L') \<Longrightarrow> progress L L'"
  apply (rule loop_first_step, assumption)
  apply (auto simp: readString_def Let_def split: prod.splits if_splits)
  apply (metis forward_trans forward_readString_loop forward_advance snd_conv)
  done

lemma readNumber_progress:
  "\<not> isAtEnd L \<Longrightarrow> isDigit (peek L) \<Longrightarrow> progress L (snd (readNumber L st ln col))"
  apply (rule loop_first_step, assumption)
  apply (subst readNumber_def)
  apply (subst readNumber_digits.simps)
  apply (auto simp: Let_def forward_readNumber_digits split: if_splits
      intro: forward_trans [OF forward_readNumber_digits forward_trans [OF forward_advance forward_readNumber_digits]])
  done

lemma readAddressLiteral_progress:
  "\<not> isAtEnd L \<Longrightarrow> progress L (snd (readAddressLiteral L st ln col))"
  apply (rule loop_first_step, assumption)
  apply (simp add: readAddressLiteral_def Let_def)
  apply (rule forward_trans [OF forward_advance forward_readAddressLiteral_loop])
  done

lemma readIdentifier_progress:
  "\<not> isAtEnd L \<Longrightarrow> isAlpha (peek L) \<or> peek L = CHR ''_'' \<Longrightarrow> progress L (snd (readIdentifier L st ln col))"
  apply (rule loop_first_step, assumption)
  apply (subst readIdentifier_def)
  apply (subst readIdentifier_loop.simps)
  apply (auto simp: Let_def isAlphaNumeric_def forward_readIdentifier_loop)
  done

text \<open>A call of \<open>nextToken\<close> before the end of the input that returns has read at least one character.\<close>

lemma nextToken_progress:
  assumes ne: "\<not> isAtEnd L0" and nt: "nextToken L0 = Inr (t, L')"
  shows "progress L0 L'"
proof -
  define L where "L = skipWhitespace L0"
  have fw: "forward L0 L" by (simp add: L_def forward_skipWhitespace)
  show ?thesis
  proof (cases "isAtEnd L")
    case True
    then have "L' = L" using nt by (simp add: nextToken_def L_def [symmetric])
    then show ?thesis using True ne fw by (auto simp: isAtEnd_def forward_def progress_def)
  next
    case False
    note facts = progress_advance [OF False] progress_advance2 [OF False]
      readComment_progress [OF False] readNumber_progress [OF False]
      readAddressLiteral_progress [OF False] readIdentifier_progress [OF False]
    have "progress L L'"
      using nt False
      apply (simp add: nextToken_def L_def [symmetric] Let_def case_prod_beta split: if_splits sum.splits)
      apply (clarsimp simp: facts | blast dest: readString_progress [OF False])+
      done
    then show ?thesis using fw by (auto simp: forward_def progress_def)
  qed
qed

lemma nextToken_remaining:
  "\<not> isAtEnd L \<Longrightarrow> nextToken L = Inr (t, L') \<Longrightarrow> remaining L' < remaining L"
  using nextToken_progress [of L t L'] by (auto simp: progress_def remaining_def isAtEnd_def)

function tokenize_loop :: "Lexer \<Rightarrow> Token list \<Rightarrow> exn + Token list \<times> Lexer" where
  "tokenize_loop L tokens =
     (if \<not> isAtEnd L then
        (case nextToken L of
           Inl e \<Rightarrow> Inl e
         | Inr (token, L') \<Rightarrow>
             tokenize_loop L'
               (case token of
                  None \<Rightarrow> tokens
                | Some t \<Rightarrow>
                    if tok_type t \<noteq> TokenType_Newline \<and> tok_type t \<noteq> TokenType_LineComment
                       \<and> tok_type t \<noteq> TokenType_BlockComment
                    then tokens @ [t] else tokens))
      else Inr (tokens, L))"
  by pat_completeness auto
termination
  by (relation "measure (\<lambda>(L, tokens). remaining L)")
     (auto intro: nextToken_remaining)

declare tokenize_loop.simps [simp del]

definition tokenize :: "string \<Rightarrow> exn + Token list" where
  "tokenize inp =
     (case tokenize_loop (new_Lexer inp) [] of
        Inl e \<Rightarrow> Inl e
      | Inr (tokens, L) \<Rightarrow>
          Inr (tokens @ [\<lparr>tok_type = TokenType_EOF, tok_value = '''', tok_line = line L,
                          tok_column = column L, tok_start = position L, tok_end = position L\<rparr>]))"

section \<open>Properties of the lexer\<close>

lemma tokenize_loop_filtered:
  "tokenize_loop L acc = Inr (toks, L') \<Longrightarrow>
   list_all (\<lambda>t. tok_type t \<noteq> TokenType_Newline \<and> tok_type t \<noteq> TokenType_LineComment
                 \<and> tok_type t \<noteq> TokenType_BlockComment) acc \<Longrightarrow>
   list_all (\<lambda>t. tok_type t \<noteq> TokenType_Newline \<and> tok_type t \<noteq> TokenType_LineComment
                 \<and> tok_type t \<noteq> TokenType_BlockComment) toks"
proof (induction L acc rule: tokenize_loop.induct)
  case (1 L tokens)
  show ?case
  proof (cases "isAtEnd L")
    case True
    then show ?thesis using 1(2,3) by (subst (asm) tokenize_loop.simps) auto
  next
    case False
    then obtain token L1 where nt: "nextToken L = Inr (token, L1)"
      using 1(2) by (subst (asm) tokenize_loop.simps) (auto split: sum.splits)
    show ?thesis
      apply (rule 1(1) [OF False nt [THEN sym, THEN sym] refl])
      using 1(2) False nt apply (subst (asm) tokenize_loop.simps) apply simp
      using 1(3) apply (auto split: option.splits)
      done
  qed
qed

text \<open>
  C4 (as amended). \<open>tokenize\<close> is a total function of the model, so it terminates on every
  input; it either throws a lexical error or returns a token list. Every list it returns
  is non-empty, ends in the \<open>EOF\<close> token and holds no \<open>Newline\<close>, \<open>LineComment\<close> or
  \<open>BlockComment\<close> token.
\<close>

theorem tokenize_result_ends_in_EOF:
  "tokenize s = Inr toks \<Longrightarrow>
   toks \<noteq> [] \<and> tok_type (last toks) = TokenType_EOF \<and>
   list_all (\<lambda>t. tok_type t \<noteq> TokenType_Newline \<and> tok_type t \<noteq> TokenType_LineComment
                 \<and> tok_type t \<noteq> TokenType_BlockComment) toks"
  by (auto simp: tokenize_def split: sum.splits dest: tokenize_loop_filtered)

theorem tokenize_result_ends_in_EOF_witness:
  "tokenize ''fn'' =
     Inr [\<lparr>tok_type = TokenType_FN, tok_value = ''fn'', tok_line = 1, tok_column = 1, tok_start = 0, tok_end = 2\<rparr>,
          \<lparr>tok_type = TokenType_EOF, tok_value = '''', tok_line = 1, tok_column = 3, tok_start = 2, tok_end = 2\<rparr>]
   \<and> tok_type (last [\<lparr>tok_type = TokenType_FN, tok_value = ''fn'', tok_line = 1, tok_column = 1, tok_start = 0, tok_end = 2\<rparr>,
          \<lparr>tok_type = TokenType_EOF, tok_value = '''', tok_line = 1, tok_column = 3, tok_start = 2, tok_end = 2\<rparr>]) = TokenType_EOF"
proof -
  have h: "tokenize ''fn'' =
     Inr [\<lparr>tok_type = TokenType_FN, tok_value = ''fn'', tok_line = 1, tok_column = 1, tok_start = 0, tok_end = 2\<rparr>,
          \<lparr>tok_type = TokenType_EOF, tok_value = '''', tok_line = 1, tok_column = 3, tok_start = 2, tok_end = 2\<rparr>]"
    by code_simp
  show ?thesis using h tokenize_result_ends_in_EOF [OF h] by simp
qed

text \<open>
  C4 (as stated) fails: \<open>tokenize\<close> throws on a character that starts no token, here \<open>@\<close>.
\<close>

theorem tokenize_raises_counterexample:
  "tokenize ''@'' = Inl (Error (''Unexpected character '' @ [CHR 0x27] @ ''@'' @ [CHR 0x27] @ '' at line 1, column 1''))"
  by code_simp

text \<open>
  C5. The input \<open>0x1f\<close> is not lexed as one \<open>ADDRESS_LITERAL\<close> token: \<open>nextToken\<close> tests
  \<open>isDigit\<close> before it tests for \<open>0x\<close>, so \<open>readNumber\<close> takes the \<open>0\<close> as an \<open>INTEGER\<close>
  and the rest is read as the identifier \<open>x1f\<close>.
\<close>

theorem address_literal_lexed_as_integer:
  "tokenize ''0x1f'' =
     Inr [\<lparr>tok_type = TokenType_INTEGER, tok_value = ''0'', tok_line = 1, tok_column = 1, tok_start = 0, tok_end = 1\<rparr>,
          \<lparr>tok_type = TokenType_IDENTIFIER, tok_value = ''x1f'', tok_line = 1, tok_column = 2, tok_start = 1, tok_end = 4\<rparr>,
          \<lparr>tok_type = TokenType_EOF, tok_value = '''', tok_line = 1, tok_column = 5, tok_start = 4, tok_end = 4\<rparr>]"
  by code_simp

section \<open>The syntax tree (ast.ts)\<close>

text \<open>
  Every node of the source carries its tag in the field \<open>type\<close>; here the tag is the constructor
  (or the record type). String unions whose members the parser fills with a token's text
  (\<open>PrimitiveTypeName\<close>, the operators) are strings. \<open>js_number\<close> is the IEEE double
  of a \<open>FloatLiteral\<close> (sign, mantissa and binary exponent, the infinities, NaN): no
  function of the compiler reads or builds one.
\<close>

datatype js_number =
    Finite bool nat int
  | Infinity bool
  | NaN

record SourceLocation =
  loc_line :: nat
  loc_column :: nat
  loc_file :: "string option"

record Identifier =
  id_name :: string
  id_location :: SourceLocation

datatype Visibility = Visibility_public | Visibility_private

datatype Mutability = Mutability_mutable | Mutability_immutable

datatype Type =
    PrimitiveType (prim_name: string) SourceLocation
  | ArrayType Type "Expression option" SourceLocation
  | TupleType "Type list" SourceLocation
  | FunctionType "Type list" Type SourceLocation
  | GenericType Identifier "Type list" SourceLocation
  | ReferenceType Type bool SourceLocation
and Expression =
    IdentifierExpression Identifier
  | IntegerLiteral int SourceLocation
  | FloatLiteral js_number SourceLocation
  | StringLiteral string SourceLocation
  | BooleanLiteral bool SourceLocation
  | AddressLiteral string SourceLocation
  | BinaryExpression Expression string Expression SourceLocation
  | UnaryExpression string Expression SourceLocation
  | CallExpression Expression "Expression list" SourceLocation
  | MemberExpression Expression Identifier SourceLocation
  | IndexExpression Expression Expression SourceLocation
  | ArrayExpression "Expression list" SourceLocation
  | ObjectExpression "ObjectProperty list" SourceLocation
  | TensorExpression "Expression list" "Expression list option" SourceLocation
  | MLExpression string "Expression list" SourceLocation
  | CastExpression Expression Type SourceLocation
  | AwaitExpression Expression SourceLocation
and ObjectProperty =
    ObjectProperty Identifier Expression SourceLocation

datatype Pattern =
    IdentifierPattern Identifier SourceLocation
  | LiteralPattern Expression SourceLocation
  | StructPattern Identifier "PatternField list" SourceLocation
  | EnumPattern Identifier Identifier "Pattern list option" SourceLocation
  | WildcardPattern SourceLocation
and PatternField =
    PatternField Identifier Pattern SourceLocation

datatype Statement =
    ExpressionStatement Expression SourceLocation
  | VariableDeclaration Identifier "Type option" "Expression option" bool SourceLocation
  | AssignmentStatement Expression string Expression SourceLocation
  | IfStatement Expression Block "Block option" SourceLocation
  | WhileStatement Expression Block SourceLocation
  | ForStatement Identifier Expression Block SourceLocation
  | MatchStatement Expression "MatchArm list" SourceLocation
  | ReturnStatement "Expression option" SourceLocation
  | BreakStatement SourceLocation
  | ContinueStatement SourceLocation
  | EmitStatement Identifier "Expression list" SourceLocation
and Block =
    Block (statements: "Statement list") SourceLocation
and MatchArm =
    MatchArm Pattern "Expression option" Block SourceLocation

record Field =
  field_name :: Identifier
  field_typeAnnotation :: Type
  field_visibility :: Visibility
  field_location :: SourceLocation

record Parameter =
  param_name :: Identifier
  param_typeAnnotation :: Type
  param_location :: SourceLocation

record TypeParameter =
  tparam_name :: Identifier
  tparam_bounds :: "Type list option"
  tparam_location :: SourceLocation

record WherePredicate =
  wpred_boundType :: Type
  wpred_bounds :: "Type list"
  wpred_location :: SourceLocation

record WhereClause =
  where_predicates :: "WherePredicate list"
  where_location :: SourceLocation

record Attribute =
  attr_name :: string
  attr_arguments :: "Expression list option"
  attr_location :: SourceLocation

record Function =
  fn_name :: Identifier
  fn_typeParameters :: "TypeParameter list"
  fn_parameters :: "Parameter list"
  fn_returnType :: "Type option"
  fn_body :: Block
  fn_visibility :: Visibility
  fn_mutability :: Mutability
  fn_attributes :: "Attribute list"
  fn_isAsync :: bool
  fn_location :: SourceLocation

record EventField =
  evfield_name :: Identifier
  evfield_typeAnnotation :: Type
  evfield_indexed :: bool
  evfield_location :: SourceLocation

record Event =
  event_name :: Identifier
  event_fields :: "EventField list"
  event_location :: SourceLocation

record Modifier =
  modifier_name :: Identifier
  modifier_parameters :: "Parameter list"
  modifier_body :: Block
  modifier_location :: SourceLocation

record Contract =
  contract_name :: Identifier
  contract_fields :: "Field list"
  contract_functions :: "Function list"
  contract_events :: "Event list"
  contract_modifiers :: "Modifier list"
  contract_location :: SourceLocation

record Struct =
  struct_name :: Identifier
  struct_typeParameters :: "TypeParameter list"
  struct_fields :: "Field list"
  struct_visibility :: Visibility
  struct_location :: SourceLocation

record EnumVariant =
  variant_name :: Identifier
  variant_fields :: "Type list option"
  variant_location :: SourceLocation

record Enum =
  enum_name :: Identifier
  enum_variants :: "EnumVariant list"
  enum_visibility :: Visibility
  enum_location :: SourceLocation

record TraitFunction =
  traitfn_name :: Identifier
  traitfn_parameters :: "Parameter list"
  traitfn_returnType :: "Type option"
  traitfn_location :: SourceLocation

record AssociatedType =
  assoc_name :: Identifier
  assoc_bounds :: "Type list option"
  assoc_location :: SourceLocation

record Trait =
  trait_name :: Identifier
  trait_typeParameters :: "TypeParameter list"
  trait_functions :: "TraitFunction list"
  trait_associatedTypes :: "AssociatedType list"
  trait_visibility :: Visibility
  trait_location :: SourceLocation

record Impl =
  impl_traitName :: "Identifier option"
  impl_typeName :: Identifier
  impl_typeParameters :: "TypeParameter list"
  impl_whereClause :: "WhereClause option"
  impl_functions :: "Function list"
  impl_location :: SourceLocation

record UseDeclaration =
  use_path :: "Identifier list"
  use_alias :: "Identifier option"
  use_location :: SourceLocation

record ConstDeclaration =
  const_name :: Identifier
  const_typeAnnotation :: Type
  const_value :: Expression
  const_visibility :: Visibility
  const_location :: SourceLocation

record OperatorImpl =
  opimpl_operator :: string
  opimpl_leftType :: Type
  opimpl_rightType :: "Type option"
  opimpl_returnType :: Type
  opimpl_body :: Block
  opimpl_location :: SourceLocation

text \<open>
  \<open>Item\<close> is the union of the top-level nodes. A \<open>Module\<close> holds items again, so its fields
  are the constructor's arguments: name, items, visibility, location.
\<close>

datatype Item =
    Contract_Item Contract
  | Function_Item Function
  | Struct_Item Struct
  | Enum_Item Enum
  | Trait_Item Trait
  | Impl_Item Impl
  | UseDeclaration_Item UseDeclaration
  | ConstDeclaration_Item ConstDeclaration
  | Module_Item Identifier "Item list" Visibility SourceLocation
  | OperatorImpl_Item OperatorImpl

record SourceFile =
  items :: "Item list"
  sf_location :: SourceLocation

section \<open>Parser (the class MinimalParser)\<close>

text \<open>
  The parser keeps the token array and a cursor \<open>current\<close>. The array never changes, so a
  method is a function of the array \<open>ts\<close> and the cursor \<open>c\<close>; it returns its value with the new
  cursor (\<open>Inr\<close>) or the exception thrown with the cursor at the throw (\<open>Inl\<close>), which is
  where the \<open>catch\<close> of \<open>parseItem\<close> resumes. \<open>and_then\<close> sequences two calls. The call stack
  of the model is unbounded.
\<close>

type_synonym 'a result = "(exn \<times> nat) + ('a \<times> nat)"

definition and_then :: "'a result \<Rightarrow> ('a \<Rightarrow> nat \<Rightarrow> 'b result) \<Rightarrow> 'b result" where
  "and_then r f = (case r of Inl e \<Rightarrow> Inl e | Inr (x, c) \<Rightarrow> f x c)"

lemma and_then_cong [fundef_cong]:
  "r = r' \<Longrightarrow> (\<And>x c. r' = Inr (x, c) \<Longrightarrow> f x c = f' x c) \<Longrightarrow> and_then r f = and_then r' f'"
  by (auto simp: and_then_def split: sum.splits)

text \<open>
  \<open>tokens[i]\<close> is \<open>undefined\<close> out of range (\<open>None\<close>), and reading a property of
  \<open>undefined\<close> throws a \<open>TypeError\<close>: \<open>read_prop\<close>.
\<close>

definition undefined_type_error :: exn where
  "undefined_type_error = TypeError ''Cannot read properties of undefined''"

definition parser_peek :: "Token list \<Rightarrow> nat \<Rightarrow> Token option" where
  "parser_peek ts c = (if c < length ts then Some (ts ! c) else None)"

definition parser_previous :: "Token list \<Rightarrow> nat \<Rightarrow> Token option" where
  "parser_previous ts c = (if 1 \<le> c \<and> c - 1 < length ts then Some (ts ! (c - 1)) else None)"

definition read_prop :: "Token option \<Rightarrow> (Token \<Rightarrow> 'a) \<Rightarrow> nat \<Rightarrow> 'a result" where
  "read_prop t f c = (case t of None \<Rightarrow> Inl (undefined_type_error, c) | Some tok \<Rightarrow> Inr (f tok, c))"

definition parser_isAtEnd :: "Token list \<Rightarrow> nat \<Rightarrow> bool result" where
  "parser_isAtEnd ts c = and_then (read_prop (parser_peek ts c) tok_type c) (\<lambda>ty c. Inr (ty = TokenType_EOF, c))"

definition parser_check :: "Token list \<Rightarrow> nat \<Rightarrow> TokenType \<Rightarrow> bool result" where
  "parser_check ts c ty =
     and_then (parser_isAtEnd ts c) (\<lambda>atEnd c.
       if atEnd then Inr (False, c)
       else and_then (read_prop (parser_peek ts c) tok_type c) (\<lambda>ty' c. Inr (ty' = ty, c)))"

definition parser_advance :: "Token list \<Rightarrow> nat \<Rightarrow> Token option result" where
  "parser_advance ts c =
     and_then (parser_isAtEnd ts c) (\<lambda>atEnd c.
       let c' = (if \<not> atEnd then c + 1 else c) in Inr (parser_previous ts c', c'))"

fun parser_match :: "Token list \<Rightarrow> nat \<Rightarrow> TokenType list \<Rightarrow> bool result" where
  "parser_match ts c [] = Inr (False, c)"
| "parser_match ts c (ty # types) =
     and_then (parser_check ts c ty) (\<lambda>b c.
       if b then and_then (parser_advance ts c) (\<lambda>_ c. Inr (True, c))
       else parser_match ts c types)"

definition getLocation :: "Token list \<Rightarrow> nat \<Rightarrow> SourceLocation result" where
  "getLocation ts c =
     and_then (read_prop (parser_previous ts c) (\<lambda>t. t) c) (\<lambda>token c.
       Inr (\<lparr>loc_line = (if tok_line token = 0 then 1 else tok_line token),
             loc_column = (if tok_column token = 0 then 1 else tok_column token),
             loc_file = None\<rparr>, c))"

definition parser_consume :: "Token list \<Rightarrow> nat \<Rightarrow> TokenType \<Rightarrow> string \<Rightarrow> Token option result" where
  "parser_consume ts c ty message =
     and_then (parser_check ts c ty) (\<lambda>b c.
       if b then parser_advance ts c
       else and_then (read_prop (parser_peek ts c) (\<lambda>t. t) c) (\<lambda>t c. Inl (ParseError message t, c)))"

definition previous_value :: "Token list \<Rightarrow> nat \<Rightarrow> string result" where
  "previous_value ts c = read_prop (parser_previous ts c) tok_value c"

text \<open>
  \<open>BigInt(string)\<close> of the run time (StringToBigInt): white space is trimmed, the empty
  string is 0, a decimal literal may carry a sign, \<open>0x\<close>, \<open>0o\<close> and \<open>0b\<close> literals may not,
  anything else is a \<open>SyntaxError\<close>.
\<close>

definition isStrWhiteSpaceChar :: "char \<Rightarrow> bool" where
  "isStrWhiteSpaceChar ch = (of_char ch \<in> {9, 10, 11, 12, 13, 32, 160 :: nat})"

definition digit_value :: "char \<Rightarrow> nat option" where
  "digit_value ch =
     (let n = of_char ch :: nat in
      if 48 \<le> n \<and> n \<le> 57 then Some (n - 48)
      else if 97 \<le> n \<and> n \<le> 102 then Some (n - 87)
      else if 65 \<le> n \<and> n \<le> 70 then Some (n - 55)
      else None)"

definition digits_in_base :: "nat \<Rightarrow> string \<Rightarrow> nat option" where
  "digits_in_base b s =
     (if s = [] then None
      else foldl (\<lambda>acc ch. case acc of
                                None \<Rightarrow> None
                              | Some a \<Rightarrow> (case digit_value ch of
                                            None \<Rightarrow> None
                                          | Some d \<Rightarrow> if d < b then Some (a * b + d) else None))
             (Some 0) s)"

definition BigInt :: "string \<Rightarrow> exn + int" where
  "BigInt s =
     (let t = rev (dropWhile isStrWhiteSpaceChar (rev (dropWhile isStrWhiteSpaceChar s)));
          literal = (\<lambda>sign b ds. case digits_in_base b ds of
                        Some n \<Rightarrow> Inr (sign * int n)
                      | None \<Rightarrow> Inl (SyntaxError (''Cannot convert '' @ s @ '' to a BigInt'')))
      in if t = [] then Inr 0
         else if take 2 t = ''0x'' \<or> take 2 t = ''0X'' then literal 1 16 (drop 2 t)
         else if take 2 t = ''0o'' \<or> take 2 t = ''0O'' then literal 1 8 (drop 2 t)
         else if take 2 t = ''0b'' \<or> take 2 t = ''0B'' then literal 1 2 (drop 2 t)
         else if hd t = CHR ''-'' then literal (- 1) 10 (tl t)
         else if hd t = CHR ''+'' then literal 1 10 (tl t)
         else literal 1 10 t)"

text \<open>
  Two facts about where a call leaves the cursor, used for the termination of every loop
  of the parser and for its totality on a token array that ends in \<open>EOF\<close>:
  \<open>good ts c r\<close>: the outcome \<open>r\<close> of a call started at \<open>c\<close>, a return or a throw, leaves the
  cursor at or after \<open>c\<close>, and at or before an \<open>EOF\<close> token if \<open>c\<close> was;
  \<open>adv ts c r\<close>: moreover a normal return has consumed at least one token.
\<close>

definition eof_ahead :: "Token list \<Rightarrow> nat \<Rightarrow> bool" where
  "eof_ahead ts c = (\<exists>k. c \<le> k \<and> k < length ts \<and> tok_type (ts ! k) = TokenType_EOF)"

definition cursor_of :: "'a result \<Rightarrow> nat" where
  "cursor_of r = (case r of Inl (e, c) \<Rightarrow> c | Inr (x, c) \<Rightarrow> c)"

definition good :: "Token list \<Rightarrow> nat \<Rightarrow> 'a result \<Rightarrow> bool" where
  "good ts c r = (c \<le> cursor_of r \<and> (eof_ahead ts c \<longrightarrow> eof_ahead ts (cursor_of r)))"

definition adv :: "Token list \<Rightarrow> nat \<Rightarrow> 'a result \<Rightarrow> bool" where
  "adv ts c r = (good ts c r \<and> (\<forall>x c'. r = Inr (x, c') \<longrightarrow> c < c'))"

lemma good_Inr [simp]: "good ts c (Inr (x, c))" and good_Inl [simp]: "good ts c (Inl (e, c))"
  by (simp_all add: good_def cursor_of_def)

lemma good_trans: "good ts c r \<Longrightarrow> good ts (cursor_of r) r' \<Longrightarrow> good ts c r'"
  by (auto simp: good_def)

lemma good_and_then:
  assumes "good ts c r" "\<And>x c1. r = Inr (x, c1) \<Longrightarrow> c \<le> c1 \<Longrightarrow> good ts c1 (f x c1)"
  shows "good ts c (and_then r f)"
proof (cases r)
  case (Inl a)
  then show ?thesis using assms(1) by (simp add: and_then_def good_def cursor_of_def)
next
  case (Inr b)
  obtain x c1 where b: "b = (x, c1)" by (cases b)
  have le: "c \<le> c1" using assms(1) Inr b by (simp add: good_def cursor_of_def)
  have "good ts c1 (f x c1)" using assms(2) Inr b le by simp
  moreover have "cursor_of r = c1" using Inr b by (simp add: cursor_of_def)
  ultimately show ?thesis using good_trans [OF assms(1)] Inr b by (simp add: and_then_def)
qed

lemma adv_good: "adv ts c r \<Longrightarrow> good ts c r"
  by (simp add: adv_def)

lemma adv_and_then1:
  assumes "adv ts c r" "\<And>x c1. r = Inr (x, c1) \<Longrightarrow> c < c1 \<Longrightarrow> good ts c1 (f x c1)"
  shows "adv ts c (and_then r f)"
proof -
  have g: "good ts c (and_then r f)"
    using assms by (intro good_and_then) (auto simp: adv_def)
  have "\<And>y c'. and_then r f = Inr (y, c') \<Longrightarrow> c < c'"
  proof -
    fix y c' assume a: "and_then r f = Inr (y, c')"
    then obtain x c1 where r: "r = Inr (x, c1)" and f: "f x c1 = Inr (y, c')"
      by (auto simp: and_then_def split: sum.splits)
    have "c < c1" using assms(1) r by (simp add: adv_def)
    moreover have "c1 \<le> c'" using assms(2) [OF r \<open>c < c1\<close>] f by (simp add: good_def cursor_of_def)
    ultimately show "c < c'" by simp
  qed
  then show ?thesis using g by (auto simp: adv_def)
qed

lemma adv_and_then2:
  assumes "good ts c r" "\<And>x c1. r = Inr (x, c1) \<Longrightarrow> c \<le> c1 \<Longrightarrow> adv ts c1 (f x c1)"
  shows "adv ts c (and_then r f)"
proof -
  have g: "good ts c (and_then r f)"
    using assms by (intro good_and_then) (auto simp: adv_def)
  have "\<And>y c'. and_then r f = Inr (y, c') \<Longrightarrow> c < c'"
  proof -
    fix y c' assume a: "and_then r f = Inr (y, c')"
    then obtain x c1 where r: "r = Inr (x, c1)" and f: "f x c1 = Inr (y, c')"
      by (auto simp: and_then_def split: sum.splits)
    have "c \<le> c1" using assms(1) r by (simp add: good_def cursor_of_def)
    moreover have "c1 < c'" using assms(2) [OF r \<open>c \<le> c1\<close>] f by (simp add: adv_def)
    ultimately show "c < c'" by simp
  qed
  then show ?thesis using g by (auto simp: adv_def)
qed

lemma read_prop_same: "read_prop t f c = Inr (x, c') \<Longrightarrow> c' = c"
  by (auto simp: read_prop_def split: option.splits)

lemma good_read_prop [simp]: "good ts c (read_prop t f c)"
  by (auto simp: read_prop_def split: option.splits)

lemma p_isAtEnd_Inr:
  "parser_isAtEnd ts c = Inr (b, c') \<Longrightarrow> c' = c \<and> c < length ts \<and> b = (tok_type (ts ! c) = TokenType_EOF)"
  by (auto simp: parser_isAtEnd_def and_then_def read_prop_def parser_peek_def split: if_splits)

lemma good_isAtEnd [simp]: "good ts c (parser_isAtEnd ts c)"
  by (auto simp: parser_isAtEnd_def and_then_def read_prop_def parser_peek_def split: if_splits)

lemma p_check_Inr:
  "parser_check ts c ty = Inr (b, c') \<Longrightarrow>
     c' = c \<and> c < length ts \<and> b = (tok_type (ts ! c) \<noteq> TokenType_EOF \<and> tok_type (ts ! c) = ty)"
  by (auto simp: parser_check_def parser_isAtEnd_def and_then_def read_prop_def parser_peek_def split: if_splits)

lemma good_check [simp]: "good ts c (parser_check ts c ty)"
  by (auto simp: parser_check_def parser_isAtEnd_def and_then_def read_prop_def parser_peek_def split: if_splits)

lemma eof_ahead_Suc:
  "eof_ahead ts c \<Longrightarrow> tok_type (ts ! c) \<noteq> TokenType_EOF \<Longrightarrow> eof_ahead ts (Suc c)"
  unfolding eof_ahead_def by (metis Suc_leI le_neq_implies_less)

lemma p_advance_Inr:
  "parser_advance ts c = Inr (t, c') \<Longrightarrow>
     c < length ts \<and> (if tok_type (ts ! c) = TokenType_EOF then c' = c else c' = c + 1 \<and> t = Some (ts ! c))"
  by (auto simp: parser_advance_def parser_isAtEnd_def and_then_def read_prop_def parser_peek_def parser_previous_def Let_def
      split: if_splits)

lemma good_advance [simp]: "good ts c (parser_advance ts c)"
  by (auto simp: parser_advance_def parser_isAtEnd_def and_then_def read_prop_def parser_peek_def Let_def good_def
      cursor_of_def eof_ahead_Suc split: if_splits)

lemma p_match_Nil [simp]: "parser_match ts c [] = Inr (False, c)"
  by simp

lemma p_match_Inr:
  "parser_match ts c tys = Inr (b, c') \<Longrightarrow>
     (if b then c' = c + 1 \<and> c < length ts \<and> tok_type (ts ! c) \<noteq> TokenType_EOF \<and> tok_type (ts ! c) \<in> set tys
      else c' = c)"
proof (induction tys)
  case Nil
  then show ?case by simp
next
  case (Cons ty tys)
  show ?case
  proof (cases "parser_check ts c ty")
    case (Inl e)
    then show ?thesis using Cons.prems by (simp add: and_then_def)
  next
    case (Inr p)
    obtain b0 c0 where p: "p = (b0, c0)" by (cases p)
    note ck = p_check_Inr [OF Inr [unfolded p]]
    show ?thesis
    proof (cases b0)
      case True
      then show ?thesis
        using Cons.prems Inr p ck
        by (auto simp: and_then_def split: sum.splits dest!: p_advance_Inr split: if_splits)
    next
      case False
      then have "parser_match ts c tys = Inr (b, c')"
        using Cons.prems Inr p ck False by (auto simp: and_then_def)
      from Cons.IH [OF this] show ?thesis by (auto split: if_splits)
    qed
  qed
qed

lemma good_match [simp]: "good ts c (parser_match ts c tys)"
proof (induction tys)
  case Nil
  then show ?case by simp
next
  case (Cons ty tys)
  show ?case
    apply simp
    apply (rule good_and_then, simp)
    apply (auto dest!: p_check_Inr intro!: good_and_then Cons.IH)
    done
qed

declare parser_match.simps [simp del]

lemma consume_Inr:
  "parser_consume ts c ty msg = Inr (t, c') \<Longrightarrow>
     c' = c + 1 \<and> c < length ts \<and> t = Some (ts ! c) \<and> tok_type (ts ! c) = ty"
  by (auto simp: parser_consume_def and_then_def split: sum.splits if_splits
      dest!: p_check_Inr p_advance_Inr read_prop_same)

lemma good_consume [simp]: "good ts c (parser_consume ts c ty msg)"
  unfolding parser_consume_def
  by (rule good_and_then, simp) (auto dest!: p_check_Inr intro!: good_and_then)

lemma adv_consume [simp]: "adv ts c (parser_consume ts c ty msg)"
  by (auto simp: adv_def dest: consume_Inr)

lemma good_getLocation [simp]: "good ts c (getLocation ts c)"
  unfolding getLocation_def by (rule good_and_then) auto

lemma getLocation_same: "getLocation ts c = Inr (x, c') \<Longrightarrow> c' = c"
  by (auto simp: getLocation_def and_then_def split: sum.splits dest: read_prop_same)

lemma good_previous_value [simp]: "good ts c (previous_value ts c)"
  by (simp add: previous_value_def)

lemma previous_value_same: "previous_value ts c = Inr (x, c') \<Longrightarrow> c' = c"
  by (auto simp: previous_value_def dest: read_prop_same)

text \<open>
  The expression parser: one function per method, and one per loop of a method
  (\<open>_loop\<close>, and \<open>parseCall_args\<close> for the \<open>do ... while\<close> over the arguments of a call).
  The recursion of the functions is the recursion of the methods. The model puts no bound
  on its depth; the run time bounds it by its call stack, and a stack overflow there is a
  \<open>RangeError\<close>, which the \<open>catch\<close> of \<open>parseItem\<close> takes like every other error.
\<close>

function parseExpression :: "Token list \<Rightarrow> nat \<Rightarrow> Expression result"
  and parseLogicalOr :: "Token list \<Rightarrow> nat \<Rightarrow> Expression result"
  and parseLogicalOr_loop :: "Token list \<Rightarrow> nat \<Rightarrow> Expression \<Rightarrow> Expression result"
  and parseLogicalAnd :: "Token list \<Rightarrow> nat \<Rightarrow> Expression result"
  and parseLogicalAnd_loop :: "Token list \<Rightarrow> nat \<Rightarrow> Expression \<Rightarrow> Expression result"
  and parseEquality :: "Token list \<Rightarrow> nat \<Rightarrow> Expression result"
  and parseEquality_loop :: "Token list \<Rightarrow> nat \<Rightarrow> Expression \<Rightarrow> Expression result"
  and parseComparison :: "Token list \<Rightarrow> nat \<Rightarrow> Expression result"
  and parseComparison_loop :: "Token list \<Rightarrow> nat \<Rightarrow> Expression \<Rightarrow> Expression result"
  and parseArithmetic :: "Token list \<Rightarrow> nat \<Rightarrow> Expression result"
  and parseArithmetic_loop :: "Token list \<Rightarrow> nat \<Rightarrow> Expression \<Rightarrow> Expression result"
  and parseTerm :: "Token list \<Rightarrow> nat \<Rightarrow> Expression result"
  and parseTerm_loop :: "Token list \<Rightarrow> nat \<Rightarrow> Expression \<Rightarrow> Expression result"
  and parseUnary :: "Token list \<Rightarrow> nat \<Rightarrow> Expression result"
  and parseCall :: "Token list \<Rightarrow> nat \<Rightarrow> Expression result"
  and parseCall_loop :: "Token list \<Rightarrow> nat \<Rightarrow> Expression \<Rightarrow> Expression result"
  and parseCall_args :: "Token list \<Rightarrow> nat \<Rightarrow> Expression list \<Rightarrow> Expression list result"
  and parsePrimary :: "Token list \<Rightarrow> nat \<Rightarrow> Expression result"
where
  "parseExpression ts c = parseLogicalOr ts c"
| "parseLogicalOr ts c = and_then (parseLogicalAnd ts c) (\<lambda>expr c. parseLogicalOr_loop ts c expr)"
| "parseLogicalOr_loop ts c expr =
     and_then (parser_match ts c [TokenType_Or]) (\<lambda>m c.
       if m then
         and_then (previous_value ts c) (\<lambda>operator c.
         and_then (parseLogicalAnd ts c) (\<lambda>right c.
         and_then (getLocation ts c) (\<lambda>loc c.
           parseLogicalOr_loop ts c (BinaryExpression expr operator right loc))))
       else Inr (expr, c))"
| "parseLogicalAnd ts c = and_then (parseEquality ts c) (\<lambda>expr c. parseLogicalAnd_loop ts c expr)"
| "parseLogicalAnd_loop ts c expr =
     and_then (parser_match ts c [TokenType_And]) (\<lambda>m c.
       if m then
         and_then (previous_value ts c) (\<lambda>operator c.
         and_then (parseEquality ts c) (\<lambda>right c.
         and_then (getLocation ts c) (\<lambda>loc c.
           parseLogicalAnd_loop ts c (BinaryExpression expr operator right loc))))
       else Inr (expr, c))"
| "parseEquality ts c = and_then (parseComparison ts c) (\<lambda>expr c. parseEquality_loop ts c expr)"
| "parseEquality_loop ts c expr =
     and_then (parser_match ts c [TokenType_EqualEqual, TokenType_NotEqual]) (\<lambda>m c.
       if m then
         and_then (previous_value ts c) (\<lambda>operator c.
         and_then (parseComparison ts c) (\<lambda>right c.
         and_then (getLocation ts c) (\<lambda>loc c.
           parseEquality_loop ts c (BinaryExpression expr operator right loc))))
       else Inr (expr, c))"
| "parseComparison ts c = and_then (parseArithmetic ts c) (\<lambda>expr c. parseComparison_loop ts c expr)"
| "parseComparison_loop ts c expr =
     and_then (parser_match ts c [TokenType_Greater, TokenType_GreaterEqual, TokenType_Less, TokenType_LessEqual]) (\<lambda>m c.
       if m then
         and_then (previous_value ts c) (\<lambda>operator c.
         and_then (parseArithmetic ts c) (\<lambda>right c.
         and_then (getLocation ts c) (\<lambda>loc c.
           parseComparison_loop ts c (BinaryExpression expr operator right loc))))
       else Inr (expr, c))"
| "parseArithmetic ts c = and_then (parseTerm ts c) (\<lambda>expr c. parseArithmetic_loop ts c expr)"
| "parseArithmetic_loop ts c expr =
     and_then (parser_match ts c [TokenType_Plus, TokenType_Minus]) (\<lambda>m c.
       if m then
         and_then (previous_value ts c) (\<lambda>operator c.
         and_then (parseTerm ts c) (\<lambda>right c.
         and_then (getLocation ts c) (\<lambda>loc c.
           parseArithmetic_loop ts c (BinaryExpression expr operator right loc))))
       else Inr (expr, c))"
| "parseTerm ts c = and_then (parseUnary ts c) (\<lambda>expr c. parseTerm_loop ts c expr)"
| "parseTerm_loop ts c expr =
     and_then (parser_match ts c [TokenType_Star, TokenType_Slash]) (\<lambda>m c.
       if m then
         and_then (previous_value ts c) (\<lambda>operator c.
         and_then (parseUnary ts c) (\<lambda>right c.
         and_then (getLocation ts c) (\<lambda>loc c.
           parseTerm_loop ts c (BinaryExpression expr operator right loc))))
       else Inr (expr, c))"
| "parseUnary ts c =
     and_then (parser_match ts c [TokenType_Not, TokenType_Minus]) (\<lambda>m c.
       if m then
         and_then (previous_value ts c) (\<lambda>operator c.
         and_then (parseUnary ts c) (\<lambda>right c.
         and_then (getLocation ts c) (\<lambda>loc c.
           Inr (UnaryExpression operator right loc, c))))
       else parseCall ts c)"
| "parseCall ts c = and_then (parsePrimary ts c) (\<lambda>expr c. parseCall_loop ts c expr)"
| "parseCall_loop ts c expr =
     and_then (parser_match ts c [TokenType_LeftParen]) (\<lambda>m c.
       if m then
         and_then (parser_check ts c TokenType_RightParen) (\<lambda>rp c.
         and_then (if \<not> rp then parseCall_args ts c [] else Inr ([], c)) (\<lambda>args c.
         and_then (parser_consume ts c TokenType_RightParen ''Expected ')' after arguments'') (\<lambda>_ c.
         and_then (getLocation ts c) (\<lambda>loc c.
           parseCall_loop ts c (CallExpression expr args loc)))))
       else
         and_then (parser_match ts c [TokenType_Dot]) (\<lambda>m c.
           if m then
             and_then (parser_consume ts c TokenType_IDENTIFIER ''Expected property name'') (\<lambda>t c.
             and_then (read_prop t tok_value c) (\<lambda>name c.
             and_then (getLocation ts c) (\<lambda>loc c.
               parseCall_loop ts c (MemberExpression expr \<lparr>id_name = name, id_location = loc\<rparr> loc))))
           else Inr (expr, c)))"
| "parseCall_args ts c args =
     and_then (parseExpression ts c) (\<lambda>arg c.
     and_then (parser_match ts c [TokenType_Comma]) (\<lambda>m c.
       if m then parseCall_args ts c (args @ [arg]) else Inr (args @ [arg], c)))"
| "parsePrimary ts c =
     and_then (parser_match ts c [TokenType_BOOLEAN]) (\<lambda>m c.
       if m then
         and_then (previous_value ts c) (\<lambda>v c.
         and_then (getLocation ts c) (\<lambda>loc c.
           Inr (BooleanLiteral (v = ''true'') loc, c)))
       else
         and_then (parser_match ts c [TokenType_INTEGER]) (\<lambda>m c.
           if m then
             and_then (previous_value ts c) (\<lambda>v c.
             (case BigInt v of
                Inl e \<Rightarrow> Inl (e, c)
              | Inr n \<Rightarrow> and_then (getLocation ts c) (\<lambda>loc c. Inr (IntegerLiteral n loc, c))))
           else
             and_then (parser_match ts c [TokenType_LeftParen]) (\<lambda>m c.
               if m then
                 and_then (parseExpression ts c) (\<lambda>expr c.
                 and_then (parser_consume ts c TokenType_RightParen ''Expected ')' after expression'') (\<lambda>_ c.
                   Inr (expr, c)))
               else
                 and_then (read_prop (parser_peek ts c) (\<lambda>t. t) c) (\<lambda>t c. Inl (ParseError ''Expected expression'' t, c)))))"
  by pat_completeness auto




lemma adv_match:
  assumes "\<And>c1. parser_match ts c tys = Inr (True, c1) \<Longrightarrow> good ts c1 (A c1)"
    and "parser_match ts c tys = Inr (False, c) \<Longrightarrow> adv ts c (B c)"
  shows "adv ts c (and_then (parser_match ts c tys) (\<lambda>m c1. if m then A c1 else B c1))"
proof (cases "parser_match ts c tys")
  case (Inl e)
  then show ?thesis using good_match [of ts c tys] by (simp add: and_then_def adv_def good_def cursor_of_def)
next
  case (Inr p)
  obtain m c1 where p: "p = (m, c1)" by (cases p)
  note mi = p_match_Inr [OF Inr [unfolded p]]
  show ?thesis
  proof (cases m)
    case True
    then have c1: "c1 = c + 1" using mi by simp
    have g: "good ts c (parser_match ts c tys)" by simp
    have gA: "good ts c1 (A c1)" using assms(1) Inr p True by simp
    have "good ts c (A c1)"
      using g gA Inr p by (auto simp: good_def cursor_of_def)
    moreover have "\<And>y c'. A c1 = Inr (y, c') \<Longrightarrow> c < c'"
      using gA c1 by (auto simp: good_def cursor_of_def)
    ultimately show ?thesis using Inr p True by (simp add: and_then_def adv_def)
  next
    case False
    then have "c1 = c" using mi by simp
    then show ?thesis using assms(2) Inr p False by (simp add: and_then_def)
  qed
qed

text \<open>
  Termination of the expression parser. The recursion is nested (a loop goes on from the
  cursor that the operand's parser returned), so the cursor facts are first proved on the
  domain of the functions, by the partial induction rule.
\<close>

abbreviation expr_dom where "expr_dom \<equiv> parseExpression_parseLogicalOr_parseLogicalOr_loop_parseLogicalAnd_parseLogicalAnd_loop_parseEquality_parseEquality_loop_parseComparison_parseComparison_loop_parseArithmetic_parseArithmetic_loop_parseTerm_parseTerm_loop_parseUnary_parseCall_parseCall_loop_parseCall_args_parsePrimary_dom"

lemmas expr_psimps =
  parseExpression.psimps
  parseLogicalOr.psimps
  parseLogicalOr_loop.psimps
  parseLogicalAnd.psimps
  parseLogicalAnd_loop.psimps
  parseEquality.psimps
  parseEquality_loop.psimps
  parseComparison.psimps
  parseComparison_loop.psimps
  parseArithmetic.psimps
  parseArithmetic_loop.psimps
  parseTerm.psimps
  parseTerm_loop.psimps
  parseUnary.psimps
  parseCall.psimps
  parseCall_loop.psimps
  parseCall_args.psimps
  parsePrimary.psimps

definition expr_measure where
  "expr_measure =
     (case_sum (case_sum (case_sum (case_sum (\<lambda>(ts, c). (length ts - c, 30))
       (\<lambda>(ts, c). (length ts - c, 29)))
       (case_sum (\<lambda>(ts, c, x). (length ts - c, 0))
       (\<lambda>(ts, c). (length ts - c, 27))))
       (case_sum (case_sum (\<lambda>(ts, c, x). (length ts - c, 0))
       (\<lambda>(ts, c). (length ts - c, 25)))
       (case_sum (\<lambda>(ts, c, x). (length ts - c, 0))
       (case_sum (\<lambda>(ts, c). (length ts - c, 23))
       (\<lambda>(ts, c, x). (length ts - c, 0))))))
       (case_sum (case_sum (case_sum (\<lambda>(ts, c). (length ts - c, 21))
       (\<lambda>(ts, c, x). (length ts - c, 0)))
       (case_sum (\<lambda>(ts, c). (length ts - c, 19))
       (\<lambda>(ts, c, x). (length ts - c, 0))))
       (case_sum (case_sum (\<lambda>(ts, c). (length ts - c, 17))
       (\<lambda>(ts, c). (length ts - c, 15)))
       (case_sum (\<lambda>(ts, c, x). (length ts - c, 0))
       (case_sum (\<lambda>(ts, c, x). (length ts - c, 31))
       (\<lambda>(ts, c). (length ts - c, 13)))))))"

lemma expr_good_dom:
  shows "expr_dom (Inl (Inl (Inl (Inl (ts, c))))) \<Longrightarrow> adv ts c (parseExpression ts c)"
    and "expr_dom (Inl (Inl (Inl (Inr (ts, c))))) \<Longrightarrow> adv ts c (parseLogicalOr ts c)"
    and "expr_dom (Inl (Inl (Inr (Inl (ts, c, expr))))) \<Longrightarrow> good ts c (parseLogicalOr_loop ts c expr)"
    and "expr_dom (Inl (Inl (Inr (Inr (ts, c))))) \<Longrightarrow> adv ts c (parseLogicalAnd ts c)"
    and "expr_dom (Inl (Inr (Inl (Inl (ts, c, expr))))) \<Longrightarrow> good ts c (parseLogicalAnd_loop ts c expr)"
    and "expr_dom (Inl (Inr (Inl (Inr (ts, c))))) \<Longrightarrow> adv ts c (parseEquality ts c)"
    and "expr_dom (Inl (Inr (Inr (Inl (ts, c, expr))))) \<Longrightarrow> good ts c (parseEquality_loop ts c expr)"
    and "expr_dom (Inl (Inr (Inr (Inr (Inl (ts, c)))))) \<Longrightarrow> adv ts c (parseComparison ts c)"
    and "expr_dom (Inl (Inr (Inr (Inr (Inr (ts, c, expr)))))) \<Longrightarrow> good ts c (parseComparison_loop ts c expr)"
    and "expr_dom (Inr (Inl (Inl (Inl (ts, c))))) \<Longrightarrow> adv ts c (parseArithmetic ts c)"
    and "expr_dom (Inr (Inl (Inl (Inr (ts, c, expr))))) \<Longrightarrow> good ts c (parseArithmetic_loop ts c expr)"
    and "expr_dom (Inr (Inl (Inr (Inl (ts, c))))) \<Longrightarrow> adv ts c (parseTerm ts c)"
    and "expr_dom (Inr (Inl (Inr (Inr (ts, c, expr))))) \<Longrightarrow> good ts c (parseTerm_loop ts c expr)"
    and "expr_dom (Inr (Inr (Inl (Inl (ts, c))))) \<Longrightarrow> adv ts c (parseUnary ts c)"
    and "expr_dom (Inr (Inr (Inl (Inr (ts, c))))) \<Longrightarrow> adv ts c (parseCall ts c)"
    and "expr_dom (Inr (Inr (Inr (Inl (ts, c, expr))))) \<Longrightarrow> good ts c (parseCall_loop ts c expr)"
    and "expr_dom (Inr (Inr (Inr (Inr (Inl (ts, c, args)))))) \<Longrightarrow> adv ts c (parseCall_args ts c args)"
    and "expr_dom (Inr (Inr (Inr (Inr (Inr (ts, c)))))) \<Longrightarrow> adv ts c (parsePrimary ts c)"
proof (induct rule: parseExpression_parseLogicalOr_parseLogicalOr_loop_parseLogicalAnd_parseLogicalAnd_loop_parseEquality_parseEquality_loop_parseComparison_parseComparison_loop_parseArithmetic_parseArithmetic_loop_parseTerm_parseTerm_loop_parseUnary_parseCall_parseCall_loop_parseCall_args_parsePrimary.pinduct)
  case (1 ts c)
  show ?case by (subst expr_psimps, rule 1(1)) (rule 1(2))
next
  case (2 ts c)
  show ?case
    apply (subst expr_psimps, rule 2(1))
    apply (rule adv_and_then1 [OF 2(2)])
    apply (rule 2(3), assumption)
    done
next
  case (3 ts c expr)
  show ?case
    apply (subst expr_psimps, rule 3(1))
    apply (rule good_and_then, simp)
    apply (simp split: if_splits)
    apply (intro impI good_and_then good_previous_value)
    apply (rule adv_good)
    apply (rule 3(2), assumption+)
    apply (rule good_getLocation)
    apply (rule 3(3), assumption+)
    done
next
  case (4 ts c)
  show ?case
    apply (subst expr_psimps, rule 4(1))
    apply (rule adv_and_then1 [OF 4(2)])
    apply (rule 4(3), assumption)
    done
next
  case (5 ts c expr)
  show ?case
    apply (subst expr_psimps, rule 5(1))
    apply (rule good_and_then, simp)
    apply (simp split: if_splits)
    apply (intro impI good_and_then good_previous_value)
    apply (rule adv_good)
    apply (rule 5(2), assumption+)
    apply (rule good_getLocation)
    apply (rule 5(3), assumption+)
    done
next
  case (6 ts c)
  show ?case
    apply (subst expr_psimps, rule 6(1))
    apply (rule adv_and_then1 [OF 6(2)])
    apply (rule 6(3), assumption)
    done
next
  case (7 ts c expr)
  show ?case
    apply (subst expr_psimps, rule 7(1))
    apply (rule good_and_then, simp)
    apply (simp split: if_splits)
    apply (intro impI good_and_then good_previous_value)
    apply (rule adv_good)
    apply (rule 7(2), assumption+)
    apply (rule good_getLocation)
    apply (rule 7(3), assumption+)
    done
next
  case (8 ts c)
  show ?case
    apply (subst expr_psimps, rule 8(1))
    apply (rule adv_and_then1 [OF 8(2)])
    apply (rule 8(3), assumption)
    done
next
  case (9 ts c expr)
  show ?case
    apply (subst expr_psimps, rule 9(1))
    apply (rule good_and_then, simp)
    apply (simp split: if_splits)
    apply (intro impI good_and_then good_previous_value)
    apply (rule adv_good)
    apply (rule 9(2), assumption+)
    apply (rule good_getLocation)
    apply (rule 9(3), assumption+)
    done
next
  case (10 ts c)
  show ?case
    apply (subst expr_psimps, rule 10(1))
    apply (rule adv_and_then1 [OF 10(2)])
    apply (rule 10(3), assumption)
    done
next
  case (11 ts c expr)
  show ?case
    apply (subst expr_psimps, rule 11(1))
    apply (rule good_and_then, simp)
    apply (simp split: if_splits)
    apply (intro impI good_and_then good_previous_value)
    apply (rule adv_good)
    apply (rule 11(2), assumption+)
    apply (rule good_getLocation)
    apply (rule 11(3), assumption+)
    done
next
  case (12 ts c)
  show ?case
    apply (subst expr_psimps, rule 12(1))
    apply (rule adv_and_then1 [OF 12(2)])
    apply (rule 12(3), assumption)
    done
next
  case (13 ts c expr)
  show ?case
    apply (subst expr_psimps, rule 13(1))
    apply (rule good_and_then, simp)
    apply (simp split: if_splits)
    apply (intro impI good_and_then good_previous_value)
    apply (rule adv_good)
    apply (rule 13(2), assumption+)
    apply (rule good_getLocation)
    apply (rule 13(3), assumption+)
    done
next
  case (14 ts c)
  show ?case
    apply (subst expr_psimps, rule 14(1))
    apply (rule adv_match)
     apply (rule good_and_then, rule good_previous_value)
     apply (rule good_and_then)
      apply (rule adv_good, rule 14(2), assumption, simp, assumption)
     apply (rule good_and_then, rule good_getLocation, simp)
    apply (rule 14(3), assumption, simp)
    done
next
  case (15 ts c)
  show ?case
    apply (subst expr_psimps, rule 15(1))
    apply (rule adv_and_then1 [OF 15(2)])
    apply (rule 15(3), assumption)
    done
next
  case (16 ts c expr)
  show ?case
    apply (subst expr_psimps, rule 16(1))
    apply (rule good_and_then, simp)
    apply (simp split: if_splits)
    apply (intro conjI impI)
     apply (rule good_and_then, simp)
     apply (rule good_and_then)
      apply (simp split: if_splits)
      apply (intro impI adv_good)
      apply (rule 16(2), assumption, simp, assumption, simp)
     apply (intro good_and_then good_consume good_getLocation)
     apply (rule 16(3), assumption, simp, assumption, assumption, assumption, assumption)
    apply (rule good_and_then, simp)
    apply (simp split: if_splits)
    apply (intro impI good_and_then good_consume good_read_prop good_getLocation)
    apply (rule 16(4), assumption, simp, assumption, simp, assumption, assumption, assumption)
    done
next
  case (17 ts c args)
  show ?case
    apply (subst expr_psimps, rule 17(1))
    apply (rule adv_and_then1 [OF 17(2)])
    apply (rule good_and_then, simp)
    apply (simp split: if_splits)
    apply (intro impI adv_good)
    apply (rule 17(3), assumption, assumption, simp)
    done
next
  case (18 ts c)
  show ?case
    apply (subst expr_psimps, rule 18(1))
    apply (rule adv_match)
     apply (intro good_and_then good_previous_value good_getLocation, simp)
    apply (rule adv_match)
     apply (rule good_and_then, rule good_previous_value)
     apply (auto split: sum.splits intro!: good_and_then)[1]
    apply (rule adv_match)
     apply (rule good_and_then)
      apply (rule adv_good, rule 18(2), assumption, simp, assumption, simp, assumption, simp)
     apply (rule good_and_then, rule good_consume, simp)
    apply (simp add: and_then_def read_prop_def adv_def good_def cursor_of_def split: option.splits)
    done
qed


lemma adv_lt: "adv ts c r \<Longrightarrow> r = Inr (x, c') \<Longrightarrow> c < c'"
  by (simp add: adv_def)

lemma good_le: "good ts c r \<Longrightarrow> r = Inr (x, c') \<Longrightarrow> c \<le> c'"
  by (simp add: good_def cursor_of_def)

lemmas expr_dom_lt = expr_good_dom(1,2,4,6,8,10,12,14,15,17,18) [THEN adv_lt]

lemma expr_total: "All expr_dom"
  apply (relation "inv_image (less_than <*lex*> less_than) expr_measure")
  apply (auto simp: expr_measure_def split: if_splits
      dest!: p_match_Inr previous_value_same getLocation_same p_check_Inr consume_Inr read_prop_same
      dest: expr_dom_lt)
  apply (drule (1) expr_dom_lt, arith)+
  done



termination parseExpression
  by (rule expr_total)

lemmas expr_good = expr_good_dom [OF expr_total [THEN spec]]

lemmas adv_parseExpression = expr_good(1)

declare parseExpression.simps [simp del] parseLogicalOr.simps [simp del] parseLogicalOr_loop.simps [simp del]
  parseLogicalAnd.simps [simp del] parseLogicalAnd_loop.simps [simp del] parseEquality.simps [simp del]
  parseEquality_loop.simps [simp del] parseComparison.simps [simp del] parseComparison_loop.simps [simp del]
  parseArithmetic.simps [simp del] parseArithmetic_loop.simps [simp del] parseTerm.simps [simp del]
  parseTerm_loop.simps [simp del] parseUnary.simps [simp del] parseCall.simps [simp del]
  parseCall_loop.simps [simp del] parseCall_args.simps [simp del] parsePrimary.simps [simp del]

lemmas good_parseExpression [simp] = adv_good [OF adv_parseExpression]

lemmas parseExpression_lt = adv_lt [OF adv_parseExpression]

text \<open>
  The condition of the loops over the body of a block,
  \<open>!this.check(TokenType.RightBrace) && !this.isAtEnd()\<close>.
\<close>

definition block_continues :: "Token list \<Rightarrow> nat \<Rightarrow> bool result" where
  "block_continues ts c =
     and_then (parser_check ts c TokenType_RightBrace) (\<lambda>rb c.
       if rb then Inr (False, c)
       else and_then (parser_isAtEnd ts c) (\<lambda>atEnd c. Inr (\<not> atEnd, c)))"

lemma block_continues_Inr:
  "block_continues ts c = Inr (b, c') \<Longrightarrow>
     c' = c \<and> c < length ts \<and>
     b = (tok_type (ts ! c) \<noteq> TokenType_RightBrace \<and> tok_type (ts ! c) \<noteq> TokenType_EOF)"
  by (auto simp: block_continues_def and_then_def split: sum.splits if_splits
      dest!: p_check_Inr p_isAtEnd_Inr)

lemma good_block_continues [simp]: "good ts c (block_continues ts c)"
  unfolding block_continues_def by (auto intro!: good_and_then)

definition parseIdentifier :: "Token list \<Rightarrow> nat \<Rightarrow> Identifier result" where
  "parseIdentifier ts c =
     and_then (parser_consume ts c TokenType_IDENTIFIER ''Expected identifier'') (\<lambda>token c.
     and_then (read_prop token tok_value c) (\<lambda>name c.
     and_then (getLocation ts c) (\<lambda>loc c.
       Inr (\<lparr>id_name = name, id_location = loc\<rparr>, c))))"

lemma adv_parseIdentifier: "adv ts c (parseIdentifier ts c)"
  unfolding parseIdentifier_def
  by (rule adv_and_then1, simp) (auto intro!: good_and_then)

lemmas good_parseIdentifier [simp] = adv_good [OF adv_parseIdentifier]

lemmas parseIdentifier_lt = adv_lt [OF adv_parseIdentifier]

definition primitive_type_names :: "string list" where
  "primitive_type_names =
     [''u8'', ''u16'', ''u32'', ''u64'', ''u128'', ''u256'', ''i8'', ''i16'', ''i32'', ''i64'', ''i128'',
      ''i256'', ''bool'', ''address'', ''bytes'', ''string'']"

definition parseType :: "Token list \<Rightarrow> nat \<Rightarrow> Type result" where
  "parseType ts c =
     and_then (parser_match ts c [TokenType_IDENTIFIER]) (\<lambda>m c.
       if m then
         and_then (previous_value ts c) (\<lambda>typeName c.
           if typeName \<in> set primitive_type_names then
             and_then (getLocation ts c) (\<lambda>loc c. Inr (PrimitiveType typeName loc, c))
           else
             and_then (getLocation ts c) (\<lambda>loc1 c.
             and_then (getLocation ts c) (\<lambda>loc2 c.
               Inr (ReferenceType (PrimitiveType typeName loc1) False loc2, c))))
       else
         and_then (read_prop (parser_peek ts c) (\<lambda>t. t) c) (\<lambda>t c.
           Inl (ParseError ''Expected type'' t, c)))"

lemma adv_throw [simp]:
  "adv ts c (and_then (read_prop t f c) (\<lambda>t c. Inl (e t, c)))"
  by (auto simp: and_then_def read_prop_def adv_def good_def cursor_of_def split: option.splits)

lemma adv_parseType: "adv ts c (parseType ts c)"
  unfolding parseType_def
  by (rule adv_match) (auto intro!: good_and_then)

lemmas good_parseType [simp] = adv_good [OF adv_parseType]

lemmas parseType_lt = adv_lt [OF adv_parseType]

definition parseField :: "Token list \<Rightarrow> nat \<Rightarrow> Field result" where
  "parseField ts c =
     and_then (parseIdentifier ts c) (\<lambda>name c.
     and_then (parser_consume ts c TokenType_Colon ''Expected ':' after field name'') (\<lambda>_ c.
     and_then (parseType ts c) (\<lambda>typeAnnotation c.
     and_then (getLocation ts c) (\<lambda>loc c.
       Inr (\<lparr>field_name = name, field_typeAnnotation = typeAnnotation,
             field_visibility = Visibility_private, field_location = loc\<rparr>, c)))))"

lemma adv_parseField: "adv ts c (parseField ts c)"
  unfolding parseField_def
  by (rule adv_and_then1, rule adv_parseIdentifier) (auto intro!: good_and_then)

lemmas good_parseField [simp] = adv_good [OF adv_parseField]

lemmas parseField_lt = adv_lt [OF adv_parseField]

definition parseParameter :: "Token list \<Rightarrow> nat \<Rightarrow> Parameter result" where
  "parseParameter ts c =
     and_then (parseIdentifier ts c) (\<lambda>name c.
     and_then (parser_consume ts c TokenType_Colon ''Expected ':' after parameter name'') (\<lambda>_ c.
     and_then (parseType ts c) (\<lambda>typeAnnotation c.
     and_then (getLocation ts c) (\<lambda>loc c.
       Inr (\<lparr>param_name = name, param_typeAnnotation = typeAnnotation, param_location = loc\<rparr>, c)))))"

lemma adv_parseParameter: "adv ts c (parseParameter ts c)"
  unfolding parseParameter_def
  by (rule adv_and_then1, rule adv_parseIdentifier) (auto intro!: good_and_then)

lemmas good_parseParameter [simp] = adv_good [OF adv_parseParameter]

lemmas parseParameter_lt = adv_lt [OF adv_parseParameter]

definition parseEventField :: "Token list \<Rightarrow> nat \<Rightarrow> EventField result" where
  "parseEventField ts c =
     and_then (parser_match ts c [TokenType_INDEXED]) (\<lambda>indexed c.
     and_then (parseIdentifier ts c) (\<lambda>name c.
     and_then (parser_consume ts c TokenType_Colon ''Expected ':' after event field name'') (\<lambda>_ c.
     and_then (parseType ts c) (\<lambda>typeAnnotation c.
     and_then (getLocation ts c) (\<lambda>loc c.
       Inr (\<lparr>evfield_name = name, evfield_typeAnnotation = typeAnnotation,
             evfield_indexed = indexed, evfield_location = loc\<rparr>, c))))))"

lemma adv_parseEventField: "adv ts c (parseEventField ts c)"
  unfolding parseEventField_def
  apply (rule adv_and_then2, rule good_match)
  apply (rule adv_and_then1, rule adv_parseIdentifier)
  apply (auto intro!: good_and_then)
  done

lemmas good_parseEventField [simp] = adv_good [OF adv_parseEventField]

lemmas parseEventField_lt = adv_lt [OF adv_parseEventField]

text \<open>
  What the termination proofs of the loops use: where each step of an iteration leaves the
  cursor, read off the equation that the step returned.
\<close>

definition eof_at :: "Token list \<Rightarrow> nat \<Rightarrow> bool" where
  "eof_at ts c = (tok_type (ts ! c) = TokenType_EOF)"

lemma block_continues_D:
  "block_continues ts c = Inr (b, c') \<Longrightarrow> c' = c \<and> c < length ts \<and> (b \<longrightarrow> \<not> eof_at ts c)"
  by (auto simp: eof_at_def dest!: block_continues_Inr)

lemma isAtEnd_D:
  "parser_isAtEnd ts c = Inr (b, c') \<Longrightarrow> c' = c \<and> c < length ts \<and> (\<not> b \<longrightarrow> \<not> eof_at ts c)"
  by (auto simp: eof_at_def dest!: p_isAtEnd_Inr)

lemma check_D:
  "parser_check ts c ty = Inr (b, c') \<Longrightarrow> c' = c \<and> c < length ts \<and> (b \<longrightarrow> \<not> eof_at ts c)"
  by (auto simp: eof_at_def dest!: p_check_Inr)

lemma advance_D:
  "parser_advance ts c = Inr (t, c') \<Longrightarrow> c \<le> c' \<and> (\<not> eof_at ts c \<longrightarrow> c' = c + 1)"
  by (auto simp: eof_at_def dest!: p_advance_Inr split: if_splits)

lemma match_D:
  "parser_match ts c tys = Inr (b, c') \<Longrightarrow> c \<le> c' \<and> (b \<longrightarrow> c' = c + 1 \<and> c < length ts)"
  by (auto dest!: p_match_Inr split: if_splits)

lemma optional_match_D:
  "(if b then parser_match ts c tys else Inr (False, c)) = Inr (x, c') \<Longrightarrow> c \<le> c'"
  by (auto dest!: p_match_Inr split: if_splits)

lemma consume_D:
  "parser_consume ts c ty msg = Inr (t, c') \<Longrightarrow> c' = c + 1 \<and> c < length ts"
  by (auto dest!: consume_Inr)

lemmas step_facts =
  block_continues_D isAtEnd_D check_D advance_D match_D optional_match_D consume_D
  previous_value_same getLocation_same read_prop_same

function parseEvent_loop :: "Token list \<Rightarrow> nat \<Rightarrow> EventField list \<Rightarrow> EventField list result" where
  "parseEvent_loop ts c flds =
     and_then (block_continues ts c) (\<lambda>go c.
       if go then
         and_then (parser_check ts c TokenType_Newline) (\<lambda>nl c.
           if nl then and_then (parser_advance ts c) (\<lambda>_ c. parseEvent_loop ts c flds)
           else
             and_then (parseEventField ts c) (\<lambda>field c.
             and_then (parser_check ts c TokenType_RightBrace) (\<lambda>rb c.
             and_then (if \<not> rb then parser_match ts c [TokenType_Comma] else Inr (False, c)) (\<lambda>_ c.
               parseEvent_loop ts c (flds @ [field])))))
       else Inr (flds, c))"
  by pat_completeness auto
termination
  by (relation "measure (\<lambda>(ts, c, flds). length ts - c)")
     (auto dest!: step_facts parseEventField_lt)

declare parseEvent_loop.simps [simp del]

lemma good_parseEvent_loop [simp]: "good ts c (parseEvent_loop ts c flds)"
proof (induction ts c flds rule: parseEvent_loop.induct)
  case (1 ts c flds)
  show ?case
    apply (subst parseEvent_loop.simps)
    apply (auto intro!: good_and_then)
     apply (rule 1; (assumption | (simp; fail)))+
    done
qed

definition parseEvent :: "Token list \<Rightarrow> nat \<Rightarrow> Event result" where
  "parseEvent ts c =
     and_then (parser_consume ts c TokenType_EVENT (''Expected 'event'' @ [CHR 0x27])) (\<lambda>_ c.
     and_then (parseIdentifier ts c) (\<lambda>name c.
     and_then (parser_consume ts c TokenType_LeftBrace ''Expected '{' after event name'') (\<lambda>_ c.
     and_then (parseEvent_loop ts c []) (\<lambda>flds c.
     and_then (parser_consume ts c TokenType_RightBrace ''Expected '}' after event fields'') (\<lambda>_ c.
     and_then (getLocation ts c) (\<lambda>loc c.
       Inr (\<lparr>event_name = name, event_fields = flds, event_location = loc\<rparr>, c)))))))"

lemma adv_parseEvent: "adv ts c (parseEvent ts c)"
  unfolding parseEvent_def
  by (rule adv_and_then1, rule adv_consume) (auto intro!: good_and_then)

lemmas good_parseEvent [simp] = adv_good [OF adv_parseEvent]

lemmas parseEvent_lt = adv_lt [OF adv_parseEvent]

subsection \<open>Statements and blocks\<close>

definition parseVariableDeclaration :: "Token list \<Rightarrow> nat \<Rightarrow> Statement result" where
  "parseVariableDeclaration ts c =
     and_then (parseIdentifier ts c) (\<lambda>name c.
     and_then (parser_match ts c [TokenType_Colon]) (\<lambda>m c.
     and_then (if m then and_then (parseType ts c) (\<lambda>t c. Inr (Some t, c)) else Inr (None, c)) (\<lambda>typeAnnotation c.
     and_then (parser_match ts c [TokenType_Equal]) (\<lambda>m c.
     and_then (if m then and_then (parseExpression ts c) (\<lambda>e c. Inr (Some e, c)) else Inr (None, c)) (\<lambda>initializer c.
     and_then (parser_consume ts c TokenType_Semicolon ''Expected ';' after variable declaration'') (\<lambda>_ c.
     and_then (getLocation ts c) (\<lambda>loc c.
       Inr (VariableDeclaration name typeAnnotation initializer False loc, c))))))))"

lemma adv_parseVariableDeclaration: "adv ts c (parseVariableDeclaration ts c)"
  unfolding parseVariableDeclaration_def
  by (rule adv_and_then1, rule adv_parseIdentifier) (auto intro!: good_and_then)

lemmas good_parseVariableDeclaration [simp] = adv_good [OF adv_parseVariableDeclaration]

definition parseReturnStatement :: "Token list \<Rightarrow> nat \<Rightarrow> Statement result" where
  "parseReturnStatement ts c =
     and_then (parser_check ts c TokenType_Semicolon) (\<lambda>semi c.
     and_then (if \<not> semi then and_then (parseExpression ts c) (\<lambda>e c. Inr (Some e, c)) else Inr (None, c)) (\<lambda>v c.
     and_then (parser_consume ts c TokenType_Semicolon ''Expected ';' after return statement'') (\<lambda>_ c.
     and_then (getLocation ts c) (\<lambda>loc c.
       Inr (ReturnStatement v loc, c)))))"

lemma good_parseReturnStatement [simp]: "good ts c (parseReturnStatement ts c)"
  unfolding parseReturnStatement_def by (auto intro!: good_and_then)

definition parseStatement :: "Token list \<Rightarrow> nat \<Rightarrow> Statement result" where
  "parseStatement ts c =
     and_then (parser_match ts c [TokenType_LET]) (\<lambda>m c.
       if m then parseVariableDeclaration ts c
       else
         and_then (parser_match ts c [TokenType_RETURN]) (\<lambda>m c.
           if m then parseReturnStatement ts c
           else
             and_then (parseExpression ts c) (\<lambda>expr c.
             and_then (parser_consume ts c TokenType_Semicolon ''Expected ';' after expression'') (\<lambda>_ c.
             and_then (getLocation ts c) (\<lambda>loc c.
               Inr (ExpressionStatement expr loc, c))))))"

lemma adv_parseStatement: "adv ts c (parseStatement ts c)"
  unfolding parseStatement_def
  apply (rule adv_match, simp)
  apply (rule adv_match, simp)
  apply (rule adv_and_then1, rule adv_parseExpression)
  apply (auto intro!: good_and_then)
  done

lemmas good_parseStatement [simp] = adv_good [OF adv_parseStatement]

lemmas parseStatement_lt = adv_lt [OF adv_parseStatement]

function parseBlock_loop :: "Token list \<Rightarrow> nat \<Rightarrow> Statement list \<Rightarrow> Statement list result" where
  "parseBlock_loop ts c stmts =
     and_then (block_continues ts c) (\<lambda>go c.
       if go then
         and_then (parser_check ts c TokenType_Newline) (\<lambda>nl c.
           if nl then and_then (parser_advance ts c) (\<lambda>_ c. parseBlock_loop ts c stmts)
           else and_then (parseStatement ts c) (\<lambda>stmt c. parseBlock_loop ts c (stmts @ [stmt])))
       else Inr (stmts, c))"
  by pat_completeness auto
termination
  by (relation "measure (\<lambda>(ts, c, stmts). length ts - c)")
     (auto dest!: step_facts parseStatement_lt)

declare parseBlock_loop.simps [simp del]

lemma good_parseBlock_loop [simp]: "good ts c (parseBlock_loop ts c stmts)"
proof (induction ts c stmts rule: parseBlock_loop.induct)
  case (1 ts c stmts)
  show ?case
    apply (subst parseBlock_loop.simps)
    apply (auto intro!: good_and_then)
     apply (rule 1; (assumption | (simp; fail)))+
    done
qed

definition parseBlock :: "Token list \<Rightarrow> nat \<Rightarrow> Statement list result" where
  "parseBlock ts c =
     and_then (parser_consume ts c TokenType_LeftBrace (''Expected '{'' @ [CHR 0x27])) (\<lambda>_ c.
     and_then (parseBlock_loop ts c []) (\<lambda>stmts c.
     and_then (parser_consume ts c TokenType_RightBrace (''Expected '}'' @ [CHR 0x27])) (\<lambda>_ c.
       Inr (stmts, c))))"

lemma adv_parseBlock: "adv ts c (parseBlock ts c)"
  unfolding parseBlock_def
  by (rule adv_and_then1, rule adv_consume) (auto intro!: good_and_then)

lemmas good_parseBlock [simp] = adv_good [OF adv_parseBlock]

subsection \<open>Items\<close>

text \<open>The \<open>do ... while (this.match(TokenType.Comma))\<close> over the parameters of a function.\<close>

function parseFunction_parameters :: "Token list \<Rightarrow> nat \<Rightarrow> Parameter list \<Rightarrow> Parameter list result" where
  "parseFunction_parameters ts c parameters =
     and_then (parseParameter ts c) (\<lambda>p c.
     and_then (parser_match ts c [TokenType_Comma]) (\<lambda>m c.
       if m then parseFunction_parameters ts c (parameters @ [p])
       else Inr (parameters @ [p], c)))"
  by pat_completeness auto
termination
  by (relation "measure (\<lambda>(ts, c, parameters). length ts - c)")
     (auto dest!: step_facts parseParameter_lt)

declare parseFunction_parameters.simps [simp del]

lemma good_parseFunction_parameters [simp]: "good ts c (parseFunction_parameters ts c ps)"
proof (induction ts c ps rule: parseFunction_parameters.induct)
  case (1 ts c ps)
  show ?case
    apply (subst parseFunction_parameters.simps)
    apply (auto intro!: good_and_then)
    apply (rule 1; (assumption | (simp; fail)))+
    done
qed

definition parseFunction :: "Token list \<Rightarrow> nat \<Rightarrow> Function result" where
  "parseFunction ts c =
     and_then (parseIdentifier ts c) (\<lambda>name c.
     and_then (parser_consume ts c TokenType_LeftParen ''Expected '(' after function name'') (\<lambda>_ c.
     and_then (parser_check ts c TokenType_RightParen) (\<lambda>rp c.
     and_then (if \<not> rp then parseFunction_parameters ts c [] else Inr ([], c)) (\<lambda>parameters c.
     and_then (parser_consume ts c TokenType_RightParen ''Expected ')' after parameters'') (\<lambda>_ c.
     and_then (parser_match ts c [TokenType_Arrow]) (\<lambda>m c.
     and_then (if m then and_then (parseType ts c) (\<lambda>t c. Inr (Some t, c)) else Inr (None, c)) (\<lambda>returnType c.
     and_then (parseBlock ts c) (\<lambda>body c.
     and_then (getLocation ts c) (\<lambda>blockLoc c.
     and_then (getLocation ts c) (\<lambda>loc c.
       Inr (\<lparr>fn_name = name, fn_typeParameters = [], fn_parameters = parameters,
             fn_returnType = returnType, fn_body = Block body blockLoc,
             fn_visibility = Visibility_private, fn_mutability = Mutability_immutable,
             fn_attributes = [], fn_isAsync = False, fn_location = loc\<rparr>, c)))))))))))"

lemma adv_parseFunction: "adv ts c (parseFunction ts c)"
  unfolding parseFunction_def
  by (rule adv_and_then1, rule adv_parseIdentifier) (auto intro!: good_and_then)

lemmas good_parseFunction [simp] = adv_good [OF adv_parseFunction]

lemmas parseFunction_lt = adv_lt [OF adv_parseFunction]

function parseContract_loop ::
  "Token list \<Rightarrow> nat \<Rightarrow> Field list \<Rightarrow> Function list \<Rightarrow> Event list \<Rightarrow>
     (Field list \<times> Function list \<times> Event list) result" where
  "parseContract_loop ts c flds fns evs =
     and_then (block_continues ts c) (\<lambda>go c.
       if go then
         and_then (parser_check ts c TokenType_Newline) (\<lambda>nl c.
           if nl then and_then (parser_advance ts c) (\<lambda>_ c. parseContract_loop ts c flds fns evs)
           else
             and_then (parser_check ts c TokenType_LET) (\<lambda>isLet c.
               if isLet then
                 and_then (parseField ts c) (\<lambda>field c. parseContract_loop ts c (flds @ [field]) fns evs)
               else
                 and_then (parser_check ts c TokenType_FN) (\<lambda>isFn c.
                   if isFn then
                     and_then (parseFunction ts c) (\<lambda>fn c. parseContract_loop ts c flds (fns @ [fn]) evs)
                   else
                     and_then (parser_check ts c TokenType_EVENT) (\<lambda>isEvent c.
                       if isEvent then
                         and_then (parseEvent ts c) (\<lambda>ev c. parseContract_loop ts c flds fns (evs @ [ev]))
                       else
                         and_then (parser_advance ts c) (\<lambda>_ c. parseContract_loop ts c flds fns evs)))))
       else Inr ((flds, fns, evs), c))"
  by pat_completeness auto
termination
  by (relation "measure (\<lambda>(ts, c, flds, fns, evs). length ts - c)")
     (auto dest!: step_facts parseField_lt parseFunction_lt parseEvent_lt)

declare parseContract_loop.simps [simp del]

lemma good_parseContract_loop [simp]: "good ts c (parseContract_loop ts c flds fns evs)"
proof (induction ts c flds fns evs rule: parseContract_loop.induct)
  case (1 ts c flds fns evs)
  show ?case
    apply (subst parseContract_loop.simps)
    apply (auto intro!: good_and_then)
        apply (rule 1; (assumption | (simp; fail)))+
    done
qed

definition parseContract :: "Token list \<Rightarrow> nat \<Rightarrow> Contract result" where
  "parseContract ts c =
     and_then (parseIdentifier ts c) (\<lambda>name c.
     and_then (parser_consume ts c TokenType_LeftBrace ''Expected '{' after contract name'') (\<lambda>_ c.
     and_then (parseContract_loop ts c [] [] []) (\<lambda>(flds, fns, evs) c.
     and_then (parser_consume ts c TokenType_RightBrace ''Expected '}' after contract body'') (\<lambda>_ c.
     and_then (getLocation ts c) (\<lambda>loc c.
       Inr (\<lparr>contract_name = name, contract_fields = flds, contract_functions = fns,
             contract_events = evs, contract_modifiers = [], contract_location = loc\<rparr>, c))))))"

lemma good_parseContract [simp]: "good ts c (parseContract ts c)"
  unfolding parseContract_def by (auto intro!: good_and_then)

function parseStruct_loop :: "Token list \<Rightarrow> nat \<Rightarrow> Field list \<Rightarrow> Field list result" where
  "parseStruct_loop ts c flds =
     and_then (block_continues ts c) (\<lambda>go c.
       if go then
         and_then (parser_check ts c TokenType_Newline) (\<lambda>nl c.
           if nl then and_then (parser_advance ts c) (\<lambda>_ c. parseStruct_loop ts c flds)
           else
             and_then (parseField ts c) (\<lambda>field c.
             and_then (parser_check ts c TokenType_RightBrace) (\<lambda>rb c.
             and_then (if \<not> rb then parser_match ts c [TokenType_Comma] else Inr (False, c)) (\<lambda>_ c.
               parseStruct_loop ts c (flds @ [field])))))
       else Inr (flds, c))"
  by pat_completeness auto
termination
  by (relation "measure (\<lambda>(ts, c, flds). length ts - c)")
     (auto dest!: step_facts parseField_lt)

declare parseStruct_loop.simps [simp del]

lemma good_parseStruct_loop [simp]: "good ts c (parseStruct_loop ts c flds)"
proof (induction ts c flds rule: parseStruct_loop.induct)
  case (1 ts c flds)
  show ?case
    apply (subst parseStruct_loop.simps)
    apply (auto intro!: good_and_then)
     apply (rule 1; (assumption | (simp; fail)))+
    done
qed

definition parseStruct :: "Token list \<Rightarrow> nat \<Rightarrow> Struct result" where
  "parseStruct ts c =
     and_then (parseIdentifier ts c) (\<lambda>name c.
     and_then (parser_consume ts c TokenType_LeftBrace ''Expected '{' after struct name'') (\<lambda>_ c.
     and_then (parseStruct_loop ts c []) (\<lambda>flds c.
     and_then (parser_consume ts c TokenType_RightBrace ''Expected '}' after struct fields'') (\<lambda>_ c.
     and_then (getLocation ts c) (\<lambda>loc c.
       Inr (\<lparr>struct_name = name, struct_typeParameters = [], struct_fields = flds,
             struct_visibility = Visibility_private, struct_location = loc\<rparr>, c))))))"

lemma good_parseStruct [simp]: "good ts c (parseStruct ts c)"
  unfolding parseStruct_def by (auto intro!: good_and_then)

function parseEnum_variant_fields :: "Token list \<Rightarrow> nat \<Rightarrow> Type list \<Rightarrow> Type list result" where
  "parseEnum_variant_fields ts c flds =
     and_then (block_continues ts c) (\<lambda>go c.
       if go then
         and_then (parseType ts c) (\<lambda>t c.
         and_then (parser_check ts c TokenType_RightBrace) (\<lambda>rb c.
         and_then (if \<not> rb then parser_match ts c [TokenType_Comma] else Inr (False, c)) (\<lambda>_ c.
           parseEnum_variant_fields ts c (flds @ [t]))))
       else Inr (flds, c))"
  by pat_completeness auto
termination
  by (relation "measure (\<lambda>(ts, c, flds). length ts - c)")
     (auto dest!: step_facts parseType_lt)

declare parseEnum_variant_fields.simps [simp del]

lemma good_parseEnum_variant_fields [simp]: "good ts c (parseEnum_variant_fields ts c flds)"
proof (induction ts c flds rule: parseEnum_variant_fields.induct)
  case (1 ts c flds)
  show ?case
    apply (subst parseEnum_variant_fields.simps)
    apply (auto intro!: good_and_then)
    apply (rule 1; (assumption | (simp; fail)))+
    done
qed

text \<open>One iteration of the loop of \<open>parseEnum\<close> after the \<open>Newline\<close> test: a variant.\<close>

definition parseEnum_variant :: "Token list \<Rightarrow> nat \<Rightarrow> EnumVariant result" where
  "parseEnum_variant ts c =
     and_then (parseIdentifier ts c) (\<lambda>variantName c.
     and_then (parser_match ts c [TokenType_LeftBrace]) (\<lambda>m c.
     and_then (if m then
                 and_then (parseEnum_variant_fields ts c []) (\<lambda>flds c.
                 and_then (parser_consume ts c TokenType_RightBrace ''Expected '}' after variant fields'') (\<lambda>_ c.
                   Inr (flds, c)))
               else Inr ([], c)) (\<lambda>flds c.
     and_then (getLocation ts c) (\<lambda>loc c.
     and_then (parser_check ts c TokenType_RightBrace) (\<lambda>rb c.
     and_then (if \<not> rb then parser_match ts c [TokenType_Comma] else Inr (False, c)) (\<lambda>_ c.
       Inr (\<lparr>variant_name = variantName, variant_fields = Some flds, variant_location = loc\<rparr>, c)))))))"

lemma adv_parseEnum_variant: "adv ts c (parseEnum_variant ts c)"
  unfolding parseEnum_variant_def
  by (rule adv_and_then1, rule adv_parseIdentifier) (auto intro!: good_and_then)

lemmas good_parseEnum_variant [simp] = adv_good [OF adv_parseEnum_variant]

lemmas parseEnum_variant_lt = adv_lt [OF adv_parseEnum_variant]

function parseEnum_loop :: "Token list \<Rightarrow> nat \<Rightarrow> EnumVariant list \<Rightarrow> EnumVariant list result" where
  "parseEnum_loop ts c variants =
     and_then (block_continues ts c) (\<lambda>go c.
       if go then
         and_then (parser_check ts c TokenType_Newline) (\<lambda>nl c.
           if nl then and_then (parser_advance ts c) (\<lambda>_ c. parseEnum_loop ts c variants)
           else and_then (parseEnum_variant ts c) (\<lambda>v c. parseEnum_loop ts c (variants @ [v])))
       else Inr (variants, c))"
  by pat_completeness auto
termination
  by (relation "measure (\<lambda>(ts, c, variants). length ts - c)")
     (auto dest!: step_facts parseEnum_variant_lt)

declare parseEnum_loop.simps [simp del]

lemma good_parseEnum_loop [simp]: "good ts c (parseEnum_loop ts c variants)"
proof (induction ts c variants rule: parseEnum_loop.induct)
  case (1 ts c variants)
  show ?case
    apply (subst parseEnum_loop.simps)
    apply (auto intro!: good_and_then)
     apply (rule 1; (assumption | (simp; fail)))+
    done
qed

definition parseEnum :: "Token list \<Rightarrow> nat \<Rightarrow> Enum result" where
  "parseEnum ts c =
     and_then (parseIdentifier ts c) (\<lambda>name c.
     and_then (parser_consume ts c TokenType_LeftBrace ''Expected '{' after enum name'') (\<lambda>_ c.
     and_then (parseEnum_loop ts c []) (\<lambda>variants c.
     and_then (parser_consume ts c TokenType_RightBrace ''Expected '}' after enum variants'') (\<lambda>_ c.
     and_then (getLocation ts c) (\<lambda>loc c.
       Inr (\<lparr>enum_name = name, enum_variants = variants, enum_visibility = Visibility_private,
             enum_location = loc\<rparr>, c))))))"

lemma good_parseEnum [simp]: "good ts c (parseEnum ts c)"
  unfolding parseEnum_def by (auto intro!: good_and_then)

definition parseTraitFunction :: "Token list \<Rightarrow> nat \<Rightarrow> TraitFunction result" where
  "parseTraitFunction ts c =
     and_then (parser_consume ts c TokenType_FN (''Expected 'fn'' @ [CHR 0x27])) (\<lambda>_ c.
     and_then (parseIdentifier ts c) (\<lambda>name c.
     and_then (parser_consume ts c TokenType_LeftParen ''Expected '(' after function name'') (\<lambda>_ c.
     and_then (parser_check ts c TokenType_RightParen) (\<lambda>rp c.
     and_then (if \<not> rp then parseFunction_parameters ts c [] else Inr ([], c)) (\<lambda>parameters c.
     and_then (parser_consume ts c TokenType_RightParen ''Expected ')' after parameters'') (\<lambda>_ c.
     and_then (parser_match ts c [TokenType_Arrow]) (\<lambda>m c.
     and_then (if m then and_then (parseType ts c) (\<lambda>t c. Inr (Some t, c)) else Inr (None, c)) (\<lambda>returnType c.
     and_then (parser_consume ts c TokenType_Semicolon ''Expected ';' after trait function signature'') (\<lambda>_ c.
     and_then (getLocation ts c) (\<lambda>loc c.
       Inr (\<lparr>traitfn_name = name, traitfn_parameters = parameters, traitfn_returnType = returnType,
             traitfn_location = loc\<rparr>, c)))))))))))"

lemma adv_parseTraitFunction: "adv ts c (parseTraitFunction ts c)"
  unfolding parseTraitFunction_def
  by (rule adv_and_then1, rule adv_consume) (auto intro!: good_and_then)

lemmas good_parseTraitFunction [simp] = adv_good [OF adv_parseTraitFunction]

lemmas parseTraitFunction_lt = adv_lt [OF adv_parseTraitFunction]

function parseTrait_loop :: "Token list \<Rightarrow> nat \<Rightarrow> TraitFunction list \<Rightarrow> TraitFunction list result" where
  "parseTrait_loop ts c fns =
     and_then (block_continues ts c) (\<lambda>go c.
       if go then
         and_then (parser_check ts c TokenType_Newline) (\<lambda>nl c.
           if nl then and_then (parser_advance ts c) (\<lambda>_ c. parseTrait_loop ts c fns)
           else
             and_then (parser_check ts c TokenType_FN) (\<lambda>isFn c.
               if isFn then and_then (parseTraitFunction ts c) (\<lambda>fn c. parseTrait_loop ts c (fns @ [fn]))
               else and_then (parser_advance ts c) (\<lambda>_ c. parseTrait_loop ts c fns)))
       else Inr (fns, c))"
  by pat_completeness auto
termination
  by (relation "measure (\<lambda>(ts, c, fns). length ts - c)")
     (auto dest!: step_facts parseTraitFunction_lt)

declare parseTrait_loop.simps [simp del]

lemma good_parseTrait_loop [simp]: "good ts c (parseTrait_loop ts c fns)"
proof (induction ts c fns rule: parseTrait_loop.induct)
  case (1 ts c fns)
  show ?case
    apply (subst parseTrait_loop.simps)
    apply (auto intro!: good_and_then)
      apply (rule 1; (assumption | (simp; fail)))+
    done
qed

definition parseTrait :: "Token list \<Rightarrow> nat \<Rightarrow> Trait result" where
  "parseTrait ts c =
     and_then (parseIdentifier ts c) (\<lambda>name c.
     and_then (parser_consume ts c TokenType_LeftBrace ''Expected '{' after trait name'') (\<lambda>_ c.
     and_then (parseTrait_loop ts c []) (\<lambda>fns c.
     and_then (parser_consume ts c TokenType_RightBrace ''Expected '}' after trait body'') (\<lambda>_ c.
     and_then (getLocation ts c) (\<lambda>loc c.
       Inr (\<lparr>trait_name = name, trait_typeParameters = [], trait_functions = fns,
             trait_associatedTypes = [], trait_visibility = Visibility_private,
             trait_location = loc\<rparr>, c))))))"

lemma good_parseTrait [simp]: "good ts c (parseTrait ts c)"
  unfolding parseTrait_def by (auto intro!: good_and_then)

function parseImpl_loop :: "Token list \<Rightarrow> nat \<Rightarrow> Function list \<Rightarrow> Function list result" where
  "parseImpl_loop ts c fns =
     and_then (block_continues ts c) (\<lambda>go c.
       if go then
         and_then (parser_check ts c TokenType_Newline) (\<lambda>nl c.
           if nl then and_then (parser_advance ts c) (\<lambda>_ c. parseImpl_loop ts c fns)
           else
             and_then (parser_check ts c TokenType_FN) (\<lambda>isFn c.
               if isFn then and_then (parseFunction ts c) (\<lambda>fn c. parseImpl_loop ts c (fns @ [fn]))
               else and_then (parser_advance ts c) (\<lambda>_ c. parseImpl_loop ts c fns)))
       else Inr (fns, c))"
  by pat_completeness auto
termination
  by (relation "measure (\<lambda>(ts, c, fns). length ts - c)")
     (auto dest!: step_facts parseFunction_lt)

declare parseImpl_loop.simps [simp del]

lemma good_parseImpl_loop [simp]: "good ts c (parseImpl_loop ts c fns)"
proof (induction ts c fns rule: parseImpl_loop.induct)
  case (1 ts c fns)
  show ?case
    apply (subst parseImpl_loop.simps)
    apply (auto intro!: good_and_then)
      apply (rule 1; (assumption | (simp; fail)))+
    done
qed

definition parseImpl :: "Token list \<Rightarrow> nat \<Rightarrow> Impl result" where
  "parseImpl ts c =
     and_then (parser_check ts c TokenType_IDENTIFIER) (\<lambda>isId c.
     and_then (if isId then
                 and_then (parseIdentifier ts c) (\<lambda>firstId c.
                 and_then (parser_match ts c [TokenType_FOR]) (\<lambda>m c.
                   if m then and_then (parseIdentifier ts c) (\<lambda>typeName c. Inr ((Some firstId, typeName), c))
                   else Inr ((None, firstId), c)))
               else
                 and_then (read_prop (parser_peek ts c) (\<lambda>t. t) c) (\<lambda>t c.
                   Inl (ParseError ''Expected type name in impl'' t, c))) (\<lambda>(traitName, typeName) c.
     and_then (parser_consume ts c TokenType_LeftBrace ''Expected '{' after impl declaration'') (\<lambda>_ c.
     and_then (parseImpl_loop ts c []) (\<lambda>fns c.
     and_then (parser_consume ts c TokenType_RightBrace ''Expected '}' after impl body'') (\<lambda>_ c.
     and_then (getLocation ts c) (\<lambda>loc c.
       Inr (\<lparr>impl_traitName = traitName, impl_typeName = typeName, impl_typeParameters = [],
             impl_whereClause = None, impl_functions = fns, impl_location = loc\<rparr>, c)))))))"

lemma good_parseImpl [simp]: "good ts c (parseImpl ts c)"
  unfolding parseImpl_def by (auto intro!: good_and_then adv_good [OF adv_throw])

text \<open>The \<open>do ... while (this.match(TokenType.DoubleColon))\<close> over the path of a \<open>use\<close>.\<close>

function parseUse_path :: "Token list \<Rightarrow> nat \<Rightarrow> Identifier list \<Rightarrow> Identifier list result" where
  "parseUse_path ts c path =
     and_then (parseIdentifier ts c) (\<lambda>ident c.
     and_then (parser_match ts c [TokenType_DoubleColon]) (\<lambda>m c.
       if m then parseUse_path ts c (path @ [ident])
       else Inr (path @ [ident], c)))"
  by pat_completeness auto
termination
  by (relation "measure (\<lambda>(ts, c, path). length ts - c)")
     (auto dest!: step_facts parseIdentifier_lt)

declare parseUse_path.simps [simp del]

lemma good_parseUse_path [simp]: "good ts c (parseUse_path ts c path)"
proof (induction ts c path rule: parseUse_path.induct)
  case (1 ts c path)
  show ?case
    apply (subst parseUse_path.simps)
    apply (auto intro!: good_and_then)
    apply (rule 1; (assumption | (simp; fail)))+
    done
qed

definition parseUse :: "Token list \<Rightarrow> nat \<Rightarrow> UseDeclaration result" where
  "parseUse ts c =
     and_then (parseUse_path ts c []) (\<lambda>path c.
     and_then (parser_match ts c [TokenType_AS]) (\<lambda>m c.
     and_then (if m then and_then (parseIdentifier ts c) (\<lambda>a c. Inr (Some a, c)) else Inr (None, c)) (\<lambda>alias c.
     and_then (parser_consume ts c TokenType_Semicolon ''Expected ';' after use declaration'') (\<lambda>_ c.
     and_then (getLocation ts c) (\<lambda>loc c.
       Inr (\<lparr>use_path = path, use_alias = alias, use_location = loc\<rparr>, c))))))"

lemma good_parseUse [simp]: "good ts c (parseUse ts c)"
  unfolding parseUse_def by (auto intro!: good_and_then)

definition parseConst :: "Token list \<Rightarrow> nat \<Rightarrow> ConstDeclaration result" where
  "parseConst ts c =
     and_then (parseIdentifier ts c) (\<lambda>name c.
     and_then (parser_consume ts c TokenType_Colon ''Expected ':' after const name'') (\<lambda>_ c.
     and_then (parseType ts c) (\<lambda>typeAnnotation c.
     and_then (parser_consume ts c TokenType_Equal ''Expected '=' after const type'') (\<lambda>_ c.
     and_then (parseExpression ts c) (\<lambda>v c.
     and_then (parser_consume ts c TokenType_Semicolon ''Expected ';' after const value'') (\<lambda>_ c.
     and_then (getLocation ts c) (\<lambda>loc c.
       Inr (\<lparr>const_name = name, const_typeAnnotation = typeAnnotation, const_value = v,
             const_visibility = Visibility_private, const_location = loc\<rparr>, c))))))))"

lemma good_parseConst [simp]: "good ts c (parseConst ts c)"
  unfolding parseConst_def by (auto intro!: good_and_then)

subsection \<open>Error recovery\<close>

definition synchronize_tokens :: "TokenType list" where
  "synchronize_tokens =
     [TokenType_CONTRACT, TokenType_FN, TokenType_STRUCT, TokenType_ENUM, TokenType_TRAIT,
      TokenType_IMPL, TokenType_USE, TokenType_CONST, TokenType_LET, TokenType_RETURN]"

function synchronize_loop :: "Token list \<Rightarrow> nat \<Rightarrow> unit result" where
  "synchronize_loop ts c =
     and_then (parser_isAtEnd ts c) (\<lambda>atEnd c.
       if \<not> atEnd then
         and_then (read_prop (parser_previous ts c) tok_type c) (\<lambda>prevType c.
           if prevType = TokenType_Semicolon then Inr ((), c)
           else
             and_then (read_prop (parser_peek ts c) tok_type c) (\<lambda>peekType c.
               if peekType \<in> set synchronize_tokens then Inr ((), c)
               else and_then (parser_advance ts c) (\<lambda>_ c. synchronize_loop ts c)))
       else Inr ((), c))"
  by pat_completeness auto
termination
  by (relation "measure (\<lambda>(ts, c). length ts - c)")
     (auto dest!: step_facts)

declare synchronize_loop.simps [simp del]

lemma good_synchronize_loop [simp]: "good ts c (synchronize_loop ts c)"
proof (induction ts c rule: synchronize_loop.induct)
  case (1 ts c)
  show ?case
    apply (subst synchronize_loop.simps)
    apply (auto intro!: good_and_then)
    apply (rule 1; (assumption | (simp; fail)))+
    done
qed

definition synchronize :: "Token list \<Rightarrow> nat \<Rightarrow> unit result" where
  "synchronize ts c = and_then (parser_advance ts c) (\<lambda>_ c. synchronize_loop ts c)"

lemma good_synchronize [simp]: "good ts c (synchronize ts c)"
  unfolding synchronize_def by (auto intro!: good_and_then)

subsection \<open>\<open>parseItem\<close>, \<open>parseModule\<close> and \<open>parse\<close>\<close>

text \<open>
  \<open>try { ... } catch (error) { ... }\<close>: the handler runs from the cursor at the throw,
  whatever was thrown.
\<close>

definition try_catch :: "'a result \<Rightarrow> (exn \<Rightarrow> nat \<Rightarrow> 'a result) \<Rightarrow> 'a result" where
  "try_catch r h = (case r of Inl (e, c) \<Rightarrow> h e c | Inr v \<Rightarrow> Inr v)"

lemma try_catch_cong [fundef_cong]:
  "r = r' \<Longrightarrow> (\<And>e c. r' = Inl (e, c) \<Longrightarrow> h e c = h' e c) \<Longrightarrow> try_catch r h = try_catch r' h'"
  by (auto simp: try_catch_def split: sum.splits)

function parseItem :: "Token list \<Rightarrow> nat \<Rightarrow> Item option result"
  and parseModule :: "Token list \<Rightarrow> nat \<Rightarrow> Item result"
  and parseModule_loop :: "Token list \<Rightarrow> nat \<Rightarrow> Item list \<Rightarrow> Item list result"
where
  "parseItem ts c =
     try_catch
       (and_then (parser_match ts c [TokenType_CONTRACT]) (\<lambda>m c.
          if m then and_then (parseContract ts c) (\<lambda>x c. Inr (Some (Contract_Item x), c))
          else
        and_then (parser_match ts c [TokenType_FN]) (\<lambda>m c.
          if m then and_then (parseFunction ts c) (\<lambda>x c. Inr (Some (Function_Item x), c))
          else
        and_then (parser_match ts c [TokenType_STRUCT]) (\<lambda>m c.
          if m then and_then (parseStruct ts c) (\<lambda>x c. Inr (Some (Struct_Item x), c))
          else
        and_then (parser_match ts c [TokenType_ENUM]) (\<lambda>m c.
          if m then and_then (parseEnum ts c) (\<lambda>x c. Inr (Some (Enum_Item x), c))
          else
        and_then (parser_match ts c [TokenType_TRAIT]) (\<lambda>m c.
          if m then and_then (parseTrait ts c) (\<lambda>x c. Inr (Some (Trait_Item x), c))
          else
        and_then (parser_match ts c [TokenType_IMPL]) (\<lambda>m c.
          if m then and_then (parseImpl ts c) (\<lambda>x c. Inr (Some (Impl_Item x), c))
          else
        and_then (parser_match ts c [TokenType_USE]) (\<lambda>m c.
          if m then and_then (parseUse ts c) (\<lambda>x c. Inr (Some (UseDeclaration_Item x), c))
          else
        and_then (parser_match ts c [TokenType_CONST]) (\<lambda>m c.
          if m then and_then (parseConst ts c) (\<lambda>x c. Inr (Some (ConstDeclaration_Item x), c))
          else
        and_then (parser_match ts c [TokenType_MOD]) (\<lambda>m c.
          if m then and_then (parseModule ts c) (\<lambda>x c. Inr (Some x, c))
          else
        and_then (parser_advance ts c) (\<lambda>_ c. Inr (None, c))))))))))))
       (\<lambda>error c. and_then (synchronize ts c) (\<lambda>_ c. Inr (None, c)))"
| "parseModule ts c =
     and_then (parseIdentifier ts c) (\<lambda>name c.
     and_then (parser_consume ts c TokenType_LeftBrace ''Expected '{' after module name'') (\<lambda>_ c.
     and_then (parseModule_loop ts c []) (\<lambda>its c.
     and_then (parser_consume ts c TokenType_RightBrace ''Expected '}' after module body'') (\<lambda>_ c.
     and_then (getLocation ts c) (\<lambda>loc c.
       Inr (Module_Item name its Visibility_private loc, c))))))"
| "parseModule_loop ts c its =
     and_then (block_continues ts c) (\<lambda>go c.
       if go then
         and_then (parser_check ts c TokenType_Newline) (\<lambda>nl c.
           if nl then and_then (parser_advance ts c) (\<lambda>_ c. parseModule_loop ts c its)
           else
             and_then (parseItem ts c) (\<lambda>item c.
               parseModule_loop ts c (case item of Some i \<Rightarrow> its @ [i] | None \<Rightarrow> its)))
       else Inr (its, c))"
  by pat_completeness auto

text \<open>
  \<open>adv_all ts c r\<close>: as \<open>good\<close>, and the outcome, a return or a throw, has consumed at
  least one token unless the call started at the \<open>EOF\<close> token or out of range.
\<close>

definition adv_all :: "Token list \<Rightarrow> nat \<Rightarrow> 'a result \<Rightarrow> bool" where
  "adv_all ts c r = (good ts c r \<and> (c < length ts \<longrightarrow> \<not> eof_at ts c \<longrightarrow> c < cursor_of r))"

lemma adv_all_good: "adv_all ts c r \<Longrightarrow> good ts c r"
  by (simp add: adv_all_def)

lemma parser_match_Inl: "parser_match ts c tys = Inl (e, c') \<Longrightarrow> \<not> c < length ts"
proof (induction tys)
  case Nil
  then show ?case by (simp add: parser_match.simps)
next
  case (Cons ty tys)
  then show ?case
    by (auto simp: parser_match.simps and_then_def parser_check_def parser_isAtEnd_def read_prop_def
        parser_peek_def parser_advance_def Let_def split: sum.splits if_splits)
qed

lemma adv_all_match:
  assumes "\<And>c1. parser_match ts c tys = Inr (True, c1) \<Longrightarrow> good ts c1 (A c1)"
    and "parser_match ts c tys = Inr (False, c) \<Longrightarrow> adv_all ts c (B c)"
  shows "adv_all ts c (and_then (parser_match ts c tys) (\<lambda>m c1. if m then A c1 else B c1))"
proof (cases "parser_match ts c tys")
  case (Inl p)
  obtain e c' where p: "p = (e, c')" by (cases p)
  have "\<not> c < length ts" using parser_match_Inl Inl p by blast
  moreover have "good ts c (Inl p :: 'a result)"
    using good_match [of ts c tys] Inl by (simp add: good_def cursor_of_def)
  ultimately show ?thesis using Inl by (simp add: and_then_def adv_all_def)
next
  case (Inr p)
  obtain m c1 where p: "p = (m, c1)" by (cases p)
  note mi = p_match_Inr [OF Inr [unfolded p]]
  show ?thesis
  proof (cases m)
    case True
    then have c1: "c1 = c + 1" using mi by simp
    have g: "good ts c (parser_match ts c tys)" by simp
    have gA: "good ts c1 (A c1)" using assms(1) Inr p True by simp
    have "good ts c (A c1)"
      using g gA Inr p by (auto simp: good_def cursor_of_def)
    moreover have "c < cursor_of (A c1)"
      using gA c1 by (auto simp: good_def)
    ultimately show ?thesis using Inr p True by (simp add: and_then_def adv_all_def)
  next
    case False
    then have "c1 = c" using mi by simp
    then show ?thesis using assms(2) Inr p False by (simp add: and_then_def)
  qed
qed

lemma adv_all_advance: "adv_all ts c (and_then (parser_advance ts c) (\<lambda>_ c. Inr (x, c)))"
proof -
  have "good ts c (and_then (parser_advance ts c) (\<lambda>_ c. Inr (x, c)))"
    by (auto intro!: good_and_then)
  moreover have "c < length ts \<Longrightarrow> \<not> eof_at ts c \<Longrightarrow>
      cursor_of (and_then (parser_advance ts c) (\<lambda>_ c. Inr (x, c))) = c + 1"
    by (simp add: parser_advance_def parser_isAtEnd_def read_prop_def parser_peek_def and_then_def
        eof_at_def cursor_of_def Let_def)
  ultimately show ?thesis by (simp add: adv_all_def)
qed

lemma adv_all_try_catch:
  assumes "adv_all ts c r" "\<And>e c1. r = Inl (e, c1) \<Longrightarrow> good ts c1 (h e c1)"
  shows "adv_all ts c (try_catch r h)"
proof (cases r)
  case (Inr v)
  then show ?thesis using assms(1) by (simp add: try_catch_def adv_all_def good_def cursor_of_def)
next
  case (Inl p)
  obtain e c1 where p: "p = (e, c1)" by (cases p)
  have g: "good ts c1 (h e c1)" using assms(2) Inl p by simp
  have c1: "cursor_of r = c1" using Inl p by (simp add: cursor_of_def)
  have "good ts c (h e c1)" using assms(1) g c1 by (auto simp: adv_all_def good_def)
  moreover have "c < length ts \<Longrightarrow> \<not> eof_at ts c \<Longrightarrow> c < cursor_of (h e c1)"
    using assms(1) g c1 by (auto simp: adv_all_def good_def)
  ultimately show ?thesis using Inl p by (simp add: try_catch_def adv_all_def)
qed

abbreviation item_dom where "item_dom \<equiv> parseItem_parseModule_parseModule_loop_dom"

lemma item_good_dom:
  shows "item_dom (Inl (ts, c)) \<Longrightarrow> adv_all ts c (parseItem ts c)"
    and "item_dom (Inr (Inl (ts, c))) \<Longrightarrow> good ts c (parseModule ts c)"
    and "item_dom (Inr (Inr (ts, c, its))) \<Longrightarrow> good ts c (parseModule_loop ts c its)"
proof (induct rule: parseItem_parseModule_parseModule_loop.pinduct)
  case (1 ts c)
  show ?case
    apply (subst parseItem.psimps, rule 1(1))
    apply (rule adv_all_try_catch)
     apply (rule adv_all_match, rule good_and_then, simp, simp)+
     apply (rule adv_all_match)
      apply (rule good_and_then)
       apply (rule 1(2), (assumption, simp)+)
      apply simp
     apply (rule adv_all_advance)
    apply (auto intro!: good_and_then)
    done
next
  case (2 ts c)
  show ?case
    apply (subst parseModule.psimps, rule 2(1))
    apply (intro good_and_then good_parseIdentifier good_consume)
     apply (rule 2(2); (assumption | (simp; fail)))
    apply (auto intro!: good_and_then)
    done
next
  case (3 ts c its)
  show ?case
    apply (subst parseModule_loop.psimps, rule 3(1))
    apply (auto intro!: good_and_then)
      apply (rule 3(2); (assumption | (simp; fail)))
     apply (rule adv_all_good)
     apply (rule 3(3); (assumption | (simp; fail)))
    apply (rule 3(4); (assumption | (simp; fail)))
    done
qed

definition item_measure where
  "item_measure =
     case_sum (\<lambda>(ts, c). (length ts - c, 0::nat))
       (case_sum (\<lambda>(ts, c). (length ts - c, 0))
                 (\<lambda>(ts, c, its). (length ts - c, 1)))"

lemma adv_all_lt:
  "adv_all ts c r \<Longrightarrow> r = Inr (x, c') \<Longrightarrow> c < length ts \<Longrightarrow> \<not> eof_at ts c \<Longrightarrow> c < c'"
  by (auto simp: adv_all_def cursor_of_def)

lemma item_total: "All item_dom"
  apply (relation "inv_image (less_than <*lex*> less_than) item_measure")
       apply (auto simp: item_measure_def dest!: step_facts parseIdentifier_lt)[5]
  apply (frule (1) item_good_dom(1) [THEN adv_all_lt])
    apply (auto simp: item_measure_def dest!: step_facts)
  done

termination parseItem
  by (rule item_total)

lemmas item_good = item_good_dom [OF item_total [THEN spec]]

declare parseItem.simps [simp del] parseModule.simps [simp del] parseModule_loop.simps [simp del]

lemma good_parseItem [simp]: "good ts c (parseItem ts c)"
  using item_good(1) [of ts c] by (simp add: adv_all_def)

function parse_loop :: "Token list \<Rightarrow> nat \<Rightarrow> Item list \<Rightarrow> Item list result" where
  "parse_loop ts c its =
     and_then (parser_isAtEnd ts c) (\<lambda>atEnd c.
       if \<not> atEnd then
         and_then (parser_check ts c TokenType_Newline) (\<lambda>nl c.
           if nl then and_then (parser_advance ts c) (\<lambda>_ c. parse_loop ts c its)
           else
             and_then (parseItem ts c) (\<lambda>item c.
               parse_loop ts c (case item of Some i \<Rightarrow> its @ [i] | None \<Rightarrow> its)))
       else Inr (its, c))"
  by pat_completeness auto
termination
  apply (relation "measure (\<lambda>(ts, c, its). length ts - c)")
    apply simp
   apply (auto dest!: step_facts)[1]
  apply (frule item_good(1) [THEN adv_all_lt])
    apply (auto dest!: step_facts)
  done

declare parse_loop.simps [simp del]

text \<open>
  \<open>parse\<close>: the source file, or the exception that left \<open>parse\<close>. The cursor starts at 0.
\<close>

definition parse :: "Token list \<Rightarrow> exn + SourceFile" where
  "parse ts =
     (case parse_loop ts 0 [] of
        Inl (e, c) \<Rightarrow> Inl e
      | Inr (its, c) \<Rightarrow>
          Inr \<lparr>items = its, sf_location = \<lparr>loc_line = 1, loc_column = 1, loc_file = None\<rparr>\<rparr>)"

section \<open>Compiler (the class AugustiumCompiler)\<close>

record CompilationError =
  err_message :: string
  err_line :: "nat option"
  err_column :: "nat option"

subsection \<open>Validation\<close>

text \<open>
  \<open>validateStruct\<close> and \<open>validateAST\<close> receive a reference to a node that their caller goes
  on holding. The model passes the node as state: a run (\<open>_run\<close>) returns the node as the
  method leaves it, next to the method's result. Each statement of the source is one step
  on the state (the node and the locals \<open>errors\<close>, \<open>fieldNames\<close>, \<open>hasStruct\<close>); the loop
  of \<open>validateAST\<close> puts back, item by item, the struct that \<open>validateStruct\<close> left.
\<close>

definition validateStruct_field ::
  "Struct \<times> CompilationError list \<times> string set \<Rightarrow> Field \<Rightarrow> Struct \<times> CompilationError list \<times> string set" where
  "validateStruct_field st field =
     (case st of (struct, errors, fieldNames) \<Rightarrow>
        (let errors' =
               (if id_name (field_name field) \<in> fieldNames then
                  errors @ [\<lparr>err_message = ''Duplicate field name '' @ [CHR 0x27] @ id_name (field_name field)
                                             @ [CHR 0x27] @ '' in struct '' @ id_name (struct_name struct),
                             err_line = Some (loc_line (field_location field)),
                             err_column = Some (loc_column (field_location field))\<rparr>]
                else errors)
         in (struct, errors', insert (id_name (field_name field)) fieldNames)))"

definition validateStruct_run :: "Struct \<Rightarrow> Struct \<times> CompilationError list" where
  "validateStruct_run struct =
     (let errors =
            (if length (struct_fields struct) = 0 then
               [\<lparr>err_message = ''Struct '' @ id_name (struct_name struct) @ '' must have at least one field'',
                 err_line = Some (loc_line (struct_location struct)),
                 err_column = Some (loc_column (struct_location struct))\<rparr>]
             else []);
          st = foldl validateStruct_field (struct, errors, {}) (struct_fields struct)
      in (fst st, fst (snd st)))"

definition validateStruct :: "Struct \<Rightarrow> CompilationError list" where
  "validateStruct struct = snd (validateStruct_run struct)"

definition is_Struct :: "Item \<Rightarrow> bool" where
  "is_Struct item = (case item of Struct_Item s \<Rightarrow> True | _ \<Rightarrow> False)"

definition validateAST_run :: "SourceFile \<Rightarrow> SourceFile \<times> CompilationError list" where
  "validateAST_run ast =
     (let hasStruct = foldl (\<lambda>hasStruct item. if is_Struct item then True else hasStruct) False (items ast);
          errors = (if \<not> hasStruct then
                      [\<lparr>err_message = ''At least one struct declaration is required'',
                        err_line = None, err_column = None\<rparr>]
                    else []);
          st = foldl (\<lambda>(its, errors) item.
                        (case item of
                           Struct_Item s \<Rightarrow>
                             (case validateStruct_run s of
                                (s', structErrors) \<Rightarrow> (its @ [Struct_Item s'], errors @ structErrors))
                         | _ \<Rightarrow> (its @ [item], errors)))
                     ([], errors) (items ast)
      in (ast\<lparr>items := fst st\<rparr>, snd st))"

definition validateAST :: "SourceFile \<Rightarrow> CompilationError list" where
  "validateAST ast = snd (validateAST_run ast)"

subsection \<open>Code generation\<close>

definition augustiumTypeToWASMType :: "string \<Rightarrow> string" where
  "augustiumTypeToWASMType augustiumType =
     (if augustiumType = ''Address'' \<or> augustiumType = ''U256'' \<or> augustiumType = ''U128''
         \<or> augustiumType = ''U64'' \<or> augustiumType = ''U32'' then ''i64''
      else if augustiumType = ''String'' \<or> augustiumType = ''Bytes'' then ''i32''
      else if augustiumType = ''Bool'' then ''i32''
      else ''i32'')"

definition generateStructWAT_field :: "Struct \<times> string \<Rightarrow> Field \<Rightarrow> Struct \<times> string" where
  "generateStructWAT_field st field =
     (case st of (struct, wat) \<Rightarrow>
        (let wasmType = augustiumTypeToWASMType
                          (case field_typeAnnotation field of
                             PrimitiveType name loc \<Rightarrow> name
                           | _ \<Rightarrow> ''i32'')
         in (struct, wat @ ''    (param $'' @ id_name (field_name field) @ '' '' @ wasmType @ '')\<newline>'')))"

definition generateStructWAT_run :: "Struct \<Rightarrow> Struct \<times> string" where
  \<open>generateStructWAT_run struct =
     (let wat = ''  ;; Struct: '' @ id_name (struct_name struct) @ ''\<newline>'';
          wat = wat @ ''  (func $create_'' @ id_name (struct_name struct) @ '' (export "create_''
                    @ id_name (struct_name struct) @ ''")\<newline>'';
          st = foldl generateStructWAT_field (struct, wat) (struct_fields struct);
          wat = snd st;
          wat = wat @ ''    (result i32) ;; return pointer to struct\<newline>'';
          wat = wat @ ''    ;; TODO: Implement struct creation\<newline>'';
          wat = wat @ ''    i32.const 0 ;; placeholder\<newline>'';
          wat = wat @ ''  )\<newline>\<newline>''
      in (fst st, wat))\<close>

definition generateStructWAT :: "Struct \<Rightarrow> string" where
  "generateStructWAT struct = snd (generateStructWAT_run struct)"

definition generateUtilityFunctions :: string where
  "generateUtilityFunctions =
     ''\<newline>  ;; Utility functions\<newline>'' @
     ''  (func $allocate (param $size i32) (result i32)\<newline>'' @
     ''    ;; Simple allocator - just return increasing addresses\<newline>'' @
     ''    ;; In production, this would be a proper memory allocator\<newline>'' @
     ''    i32.const 1024 ;; start at offset 1024\<newline>'' @
     ''  )\<newline>'' @
     ''  \<newline>'' @
     ''  (func $get_event_field (param $event_ptr i32) (param $field_offset i32) (result i32)\<newline>'' @
     ''    ;; Get field from event data structure\<newline>'' @
     ''    local.get $event_ptr\<newline>'' @
     ''    local.get $field_offset\<newline>'' @
     ''    i32.add\<newline>'' @
     ''    i32.load\<newline>'' @
     ''  )\<newline>''"

definition generateWASMCode_run :: "SourceFile \<Rightarrow> SourceFile \<times> string" where
  \<open>generateWASMCode_run ast =
     (let watCode = ''(module\<newline>'';
          watCode = watCode @ ''  (memory (export "memory") 1)\<newline>'';
          st = foldl (\<lambda>(its, watCode) item.
                        (case item of
                           Struct_Item s \<Rightarrow>
                             (case generateStructWAT_run s of
                                (s', wat) \<Rightarrow> (its @ [Struct_Item s'], watCode @ wat))
                         | _ \<Rightarrow> (its @ [item], watCode)))
                     ([], watCode) (items ast);
          watCode = snd st;
          watCode = watCode @ generateUtilityFunctions;
          watCode = watCode @ '')\<newline>''
      in (ast\<lparr>items := fst st\<rparr>, watCode))\<close>

definition generateWASMCode :: "SourceFile \<Rightarrow> string" where
  "generateWASMCode ast = snd (generateWASMCode_run ast)"

subsection \<open>The module and the pipeline\<close>

text \<open>
  A \<open>WebAssembly.Module\<close> is modelled by the bytes it was built from.
  \<open>WebAssembly.Module.exports\<close> reads the export section (id 7) of the binary format: a
  count, then for each export the length of its name, the name, its kind and an index.
  All the sizes of the one module the compiler builds are below 128, one byte each.
\<close>

datatype WasmModule = WasmModule "nat list"

fun find_section :: "nat \<Rightarrow> nat list \<Rightarrow> nat list option" where
  "find_section i (sid # sz # rest) =
     (if sid = i then Some (take sz rest) else find_section i (drop sz rest))"
| "find_section i bs = None"

definition export_kind :: "nat \<Rightarrow> string" where
  "export_kind k = (if k = 0 then ''function'' else if k = 1 then ''table''
                    else if k = 2 then ''memory'' else ''global'')"

fun read_exports :: "nat \<Rightarrow> nat list \<Rightarrow> (string \<times> string) list" where
  "read_exports 0 bs = []"
| "read_exports (Suc n) [] = []"
| "read_exports (Suc n) (len # bs) =
     (case drop len bs of
        kind # idx # rest \<Rightarrow> (map char_of (take len bs), export_kind kind) # read_exports n rest
      | _ \<Rightarrow> [])"

definition WebAssembly_Module_exports :: "WasmModule \<Rightarrow> (string \<times> string) list" where
  "WebAssembly_Module_exports m =
     (case m of WasmModule bytes \<Rightarrow>
        (case find_section 7 (drop 8 bytes) of
           Some (n # entries) \<Rightarrow> read_exports n entries
         | _ \<Rightarrow> []))"

definition createMinimalWASMModule :: WasmModule where
  "createMinimalWASMModule =
     WasmModule
       [0x00, 0x61, 0x73, 0x6d,
        0x01, 0x00, 0x00, 0x00,
        0x01, 0x07, 0x01, 0x60, 0x02, 0x7f, 0x7f, 0x01, 0x7f,
        0x03, 0x02, 0x01, 0x00,
        0x07, 0x0a, 0x01, 0x06, 0x6d, 0x61, 0x70, 0x70, 0x65, 0x72, 0x00, 0x00,
        0x0a, 0x09, 0x01, 0x07, 0x00, 0x20, 0x00, 0x20, 0x01, 0x6a, 0x0b]"

text \<open>
  The compiler object: its one field is \<open>wasmRuntime\<close>, which the constructor sets to
  \<open>null\<close> and nothing assigns again. A runtime, were there one, turns WAT text into a module
  or throws (\<open>wat2wasm\<close> and \<open>WebAssembly.compile\<close>, the external assembler).
\<close>

record AugustiumCompiler =
  wasmRuntime :: "(string \<Rightarrow> exn + WasmModule) option"

definition new_AugustiumCompiler :: AugustiumCompiler where
  "new_AugustiumCompiler = \<lparr>wasmRuntime = None\<rparr>"

record CompilationResult =
  wasmModule :: "WasmModule option"
  exports :: "string list"
  errors :: "CompilationError list"

definition compileToWASM :: "AugustiumCompiler \<Rightarrow> string \<Rightarrow> WasmModule" where
  "compileToWASM this watCode =
     (case wasmRuntime this of
        None \<Rightarrow> createMinimalWASMModule
      | Some runtime \<Rightarrow>
          (case runtime watCode of
             Inr m \<Rightarrow> m
           | Inl error \<Rightarrow> createMinimalWASMModule))"

definition extractExports :: "WasmModule \<Rightarrow> string list" where
  "extractExports m =
     foldl (\<lambda>exports exp. if snd exp = ''function'' then exports @ [fst exp] else exports)
       [] (WebAssembly_Module_exports m)"

text \<open>The \<open>message\<close> of what was thrown; \<open>ParseError\<close> builds its own in its constructor.\<close>

definition exn_message :: "exn \<Rightarrow> string" where
  "exn_message e =
     (case e of
        Error m \<Rightarrow> m
      | ParseError m token \<Rightarrow>
          ''Parse error at line '' @ string_of_nat (tok_line token) @ '', column ''
            @ string_of_nat (tok_column token) @ '': '' @ m
      | TypeError m \<Rightarrow> m
      | SyntaxError m \<Rightarrow> m)"

definition compilation_failed :: "exn \<Rightarrow> CompilationResult" where
  "compilation_failed error =
     \<lparr>wasmModule = None, exports = [],
      errors = [\<lparr>err_message = ''Compilation failed: '' @ exn_message error,
                 err_line = None, err_column = None\<rparr>]\<rparr>"

text \<open>
  \<open>compileMapping\<close> builds its parser with \<open>new Parser(tokens)\<close>, a class that it imports
  from \<open>../augustium/parser\<close>. The parser among the sources is the class \<open>MinimalParser\<close>;
  the model takes the \<open>parse\<close> method of the parser as the parameter \<open>Parser_parse\<close>, and
  \<open>compileMapping this parse\<close> is the pipeline over \<open>MinimalParser\<close>.
\<close>

definition compileMapping ::
  "AugustiumCompiler \<Rightarrow> (Token list \<Rightarrow> exn + SourceFile) \<Rightarrow> string \<Rightarrow> CompilationResult" where
  "compileMapping this Parser_parse augustiumCode =
     (case tokenize augustiumCode of
        Inl error \<Rightarrow> compilation_failed error
      | Inr tokens \<Rightarrow>
          (case Parser_parse tokens of
             Inl error \<Rightarrow> compilation_failed error
           | Inr ast \<Rightarrow>
               (let validationErrors = validateAST ast in
                if length validationErrors > 0 then
                  \<lparr>wasmModule = None, exports = [], errors = validationErrors\<rparr>
                else
                  (let wasmCode = generateWASMCode ast;
                       wasmModule = compileToWASM this wasmCode;
                       exports = extractExports wasmModule
                   in \<lparr>wasmModule = Some wasmModule, exports = exports, errors = []\<rparr>))))"

section \<open>Properties of the validator and the generator\<close>

text \<open>The two records that \<open>validateStruct\<close> pushes.\<close>

definition no_fields_error :: "Struct \<Rightarrow> CompilationError" where
  "no_fields_error struct =
     \<lparr>err_message = ''Struct '' @ id_name (struct_name struct) @ '' must have at least one field'',
      err_line = Some (loc_line (struct_location struct)),
      err_column = Some (loc_column (struct_location struct))\<rparr>"

definition duplicate_field_error :: "Struct \<Rightarrow> Field \<Rightarrow> CompilationError" where
  "duplicate_field_error struct field =
     \<lparr>err_message = ''Duplicate field name '' @ [CHR 0x27] @ id_name (field_name field)
                       @ [CHR 0x27] @ '' in struct '' @ id_name (struct_name struct),
      err_line = Some (loc_line (field_location field)),
      err_column = Some (loc_column (field_location field))\<rparr>"

text \<open>The fields whose name one of \<open>seen\<close> or an earlier field of the list already has.\<close>

fun later_duplicates :: "string set \<Rightarrow> Field list \<Rightarrow> Field list" where
  "later_duplicates seen [] = []"
| "later_duplicates seen (f # fs) =
     (if id_name (field_name f) \<in> seen then [f] else [])
       @ later_duplicates (insert (id_name (field_name f)) seen) fs"

lemma validateStruct_field_foldl:
  "foldl validateStruct_field (s, errs, seen) fs =
     (s, errs @ map (duplicate_field_error s) (later_duplicates seen fs),
      seen \<union> set (map (\<lambda>f. id_name (field_name f)) fs))"
  by (induction fs arbitrary: errs seen)
     (auto simp: validateStruct_field_def duplicate_field_error_def Let_def)

lemma later_duplicates_index:
  "later_duplicates seen fs =
     map (\<lambda>i. fs ! i)
       (filter (\<lambda>i. id_name (field_name (fs ! i))
                       \<in> seen \<union> set (map (\<lambda>f. id_name (field_name f)) (take i fs)))
          [0..<length fs])"
proof (induction fs arbitrary: seen)
  case Nil
  then show ?case by simp
next
  case (Cons f fs)
  have upt: "[0..<length (f # fs)] = 0 # map Suc [0..<length fs]"
    by (simp add: upt_conv_Cons map_Suc_upt del: upt_Suc)
  show ?case
    unfolding upt
    by (simp add: Cons.IH filter_map comp_def disj_ac del: upt_Suc)
qed

lemma validateStruct_eq:
  "validateStruct s =
     (if struct_fields s = [] then [no_fields_error s] else [])
       @ map (duplicate_field_error s) (later_duplicates {} (struct_fields s))"
  by (simp add: validateStruct_def validateStruct_run_def validateStruct_field_foldl
      no_fields_error_def Let_def)

lemma validateStruct_run_tree: "fst (validateStruct_run s) = s"
  by (simp add: validateStruct_run_def validateStruct_field_foldl Let_def)

lemma validateStruct_run_eq: "validateStruct_run s = (s, validateStruct s)"
  using validateStruct_run_tree [of s] by (simp add: validateStruct_def prod_eq_iff)

lemma hasStruct_foldl:
  "foldl (\<lambda>hasStruct item. if is_Struct item then True else hasStruct) b xs
     = (b \<or> list_ex is_Struct xs)"
  by (induction xs arbitrary: b) auto

definition item_errors :: "Item \<Rightarrow> CompilationError list" where
  "item_errors item = (case item of Struct_Item s \<Rightarrow> validateStruct s | _ \<Rightarrow> [])"

lemma validateAST_foldl:
  "foldl (\<lambda>(its, errors) item.
            (case item of
               Struct_Item s \<Rightarrow>
                 (case validateStruct_run s of
                    (s', structErrors) \<Rightarrow> (its @ [Struct_Item s'], errors @ structErrors))
             | _ \<Rightarrow> (its @ [item], errors)))
     (its, errs) xs
   = (its @ xs, errs @ concat (map item_errors xs))"
  by (induction xs arbitrary: its errs)
     (auto simp: validateStruct_run_eq item_errors_def split: Item.splits)

lemma validateAST_run_eq:
  "validateAST_run ast =
     (ast, (if list_ex is_Struct (items ast) then []
            else [\<lparr>err_message = ''At least one struct declaration is required'',
                   err_line = None, err_column = None\<rparr>])
           @ concat (map item_errors (items ast)))"
  by (simp add: validateAST_run_def validateAST_foldl hasStruct_foldl Let_def)

lemma generateStructWAT_field_foldl:
  "fst (foldl generateStructWAT_field (s, wat) fs) = s"
  by (induction fs arbitrary: wat) (auto simp: generateStructWAT_field_def Let_def)

lemma generateStructWAT_run_eq: "generateStructWAT_run s = (s, generateStructWAT s)"
  by (simp add: generateStructWAT_def generateStructWAT_run_def generateStructWAT_field_foldl
      Let_def prod_eq_iff)

lemma generateWASMCode_foldl:
  "fst (foldl (\<lambda>(its, watCode) item.
                 (case item of
                    Struct_Item s \<Rightarrow>
                      (case generateStructWAT_run s of
                         (s', wat) \<Rightarrow> (its @ [Struct_Item s'], watCode @ wat))
                  | _ \<Rightarrow> (its @ [item], watCode)))
          (its, w) xs)
   = its @ xs"
  by (induction xs arbitrary: its w)
     (auto simp: generateStructWAT_run_eq split: Item.splits)

text \<open>Test data: a location, an identifier, a field and a struct at that location.\<close>

definition example_loc :: "nat \<Rightarrow> nat \<Rightarrow> SourceLocation" where
  "example_loc l c = \<lparr>loc_line = l, loc_column = c, loc_file = None\<rparr>"

definition example_field :: "string \<Rightarrow> Type \<Rightarrow> SourceLocation \<Rightarrow> Field" where
  "example_field name ty loc =
     \<lparr>field_name = \<lparr>id_name = name, id_location = loc\<rparr>, field_typeAnnotation = ty,
      field_visibility = Visibility_private, field_location = loc\<rparr>"

definition example_struct :: "string \<Rightarrow> Field list \<Rightarrow> SourceLocation \<Rightarrow> Struct" where
  "example_struct name flds loc =
     \<lparr>struct_name = \<lparr>id_name = name, id_location = loc\<rparr>, struct_typeParameters = [],
      struct_fields = flds, struct_visibility = Visibility_private, struct_location = loc\<rparr>"

text \<open>
  C7 (as amended). A struct with no field gets exactly one diagnostic
  \<open>Struct <name> must have at least one field\<close>, with the line and the column of the
  struct's location; a struct with a field gets none with that message.
\<close>

theorem validateStruct_no_fields:
  "filter (\<lambda>e. err_message e = ''Struct '' @ id_name (struct_name s) @ '' must have at least one field'')
     (validateStruct s)
   = (if struct_fields s = [] then
        [\<lparr>err_message = ''Struct '' @ id_name (struct_name s) @ '' must have at least one field'',
          err_line = Some (loc_line (struct_location s)),
          err_column = Some (loc_column (struct_location s))\<rparr>]
      else [])"
  by (auto simp: validateStruct_eq no_fields_error_def duplicate_field_error_def filter_empty_conv)

text \<open>
  C7 (as stated) fails on the text of the diagnostic: for the empty struct \<open>E\<close> the
  message is \<open>Struct E must have at least one field\<close>, capitalised and with the bare name.
\<close>

theorem validateStruct_no_fields_message_counterexample:
  "map err_message (validateStruct (example_struct ''E'' [] (example_loc 1 12)))
     = [''Struct E must have at least one field'']
   \<and> ''Struct E must have at least one field'' \<noteq> ''struct `E` must have at least one field''"
  by (simp add: validateStruct_eq no_fields_error_def example_struct_def example_loc_def)

text \<open>
  C8 (as amended). \<open>validateStruct\<close> returns, after the diagnostic of a struct without
  fields, one diagnostic \<open>Duplicate field name '<field>' in struct <name>\<close> for every field
  whose name an earlier field of the struct has, in the order of the fields, each with the
  line and the column of that field's location.
\<close>

theorem validateStruct_duplicates:
  "validateStruct s =
     (if struct_fields s = [] then [no_fields_error s] else [])
     @ map (\<lambda>i. duplicate_field_error s (struct_fields s ! i))
         (filter (\<lambda>i. id_name (field_name (struct_fields s ! i))
                         \<in> set (map (\<lambda>f. id_name (field_name f)) (take i (struct_fields s))))
            [0..<length (struct_fields s)])"
  by (simp add: validateStruct_eq later_duplicates_index comp_def)

text \<open>
  The struct \<open>Dup { a: u32, a: u32 }\<close> gets exactly one diagnostic, at the second field;
  three fields \<open>a, b, a, b\<close> get one for each repeated name.
\<close>

theorem validateStruct_duplicates_witness:
  "validateStruct (example_struct ''Dup''
       [example_field ''a'' (PrimitiveType ''u32'' (example_loc 1 17)) (example_loc 1 17),
        example_field ''a'' (PrimitiveType ''u32'' (example_loc 1 25)) (example_loc 1 25)]
       (example_loc 1 29))
     = [\<lparr>err_message = ''Duplicate field name '' @ [CHR 0x27] @ ''a'' @ [CHR 0x27] @ '' in struct Dup'',
         err_line = Some 1, err_column = Some 25\<rparr>]
   \<and> map err_line (validateStruct (example_struct ''S''
       [example_field ''a'' (PrimitiveType ''u32'' (example_loc 1 1)) (example_loc 1 1),
        example_field ''b'' (PrimitiveType ''u32'' (example_loc 2 1)) (example_loc 2 1),
        example_field ''a'' (PrimitiveType ''u32'' (example_loc 3 1)) (example_loc 3 1),
        example_field ''b'' (PrimitiveType ''u32'' (example_loc 4 1)) (example_loc 4 1)]
       (example_loc 5 1)))
     = [Some 3, Some 4]"
  unfolding validateStruct_duplicates
  by (simp add: example_struct_def example_field_def example_loc_def duplicate_field_error_def
      upt_conv_Cons)

text \<open>
  C8 (as stated) fails on the text of the diagnostic: for \<open>Dup { a: u32, a: u32 }\<close> the
  message is \<open>Duplicate field name 'a' in struct Dup\<close>.
\<close>

theorem validateStruct_duplicate_message_counterexample:
  "map err_message (validateStruct (example_struct ''Dup''
       [example_field ''a'' (PrimitiveType ''u32'' (example_loc 1 17)) (example_loc 1 17),
        example_field ''a'' (PrimitiveType ''u32'' (example_loc 1 25)) (example_loc 1 25)]
       (example_loc 1 29)))
     = [''Duplicate field name '' @ [CHR 0x27] @ ''a'' @ [CHR 0x27] @ '' in struct Dup'']
   \<and> ''Duplicate field name '' @ [CHR 0x27] @ ''a'' @ [CHR 0x27] @ '' in struct Dup''
       \<noteq> ''duplicate field name `a` in struct `Dup`''"
  by (simp add: validateStruct_eq duplicate_field_error_def example_struct_def example_field_def
      example_loc_def)

text \<open>
  C9. Validation and code generation leave the tree as they found it: the node that a run
  of \<open>validateAST\<close>, \<open>validateStruct\<close>, \<open>generateWASMCode\<close> or \<open>generateStructWAT\<close> returns
  is the node it was given. They only produce the diagnostics and the WAT text.
\<close>

theorem validation_and_generation_keep_the_tree:
  "fst (validateAST_run ast) = ast \<and> fst (generateWASMCode_run ast) = ast
   \<and> fst (validateStruct_run s) = s \<and> fst (generateStructWAT_run s) = s"
  by (simp add: validateAST_run_eq generateWASMCode_run_def generateWASMCode_foldl
      validateStruct_run_eq generateStructWAT_run_eq Let_def)

section \<open>Totality of \<open>parse\<close>\<close>

text \<open>
  With the cursor in range no helper reads \<open>undefined\<close>: \<open>isAtEnd\<close>, \<open>check\<close> and \<open>advance\<close>
  return, and say what they return.
\<close>

lemma eof_ahead_lt: "eof_ahead ts c \<Longrightarrow> c < length ts"
  by (auto simp: eof_ahead_def)

lemma and_then_Inr: "and_then (Inr (x, c)) f = f x c"
  by (simp add: and_then_def)

lemma isAtEnd_eval: "c < length ts \<Longrightarrow> parser_isAtEnd ts c = Inr (eof_at ts c, c)"
  by (simp add: parser_isAtEnd_def and_then_def read_prop_def parser_peek_def eof_at_def)

lemma check_eval:
  "c < length ts \<Longrightarrow> parser_check ts c ty = Inr (\<not> eof_at ts c \<and> tok_type (ts ! c) = ty, c)"
  by (simp add: parser_check_def isAtEnd_eval and_then_def read_prop_def parser_peek_def)

lemma advance_eval:
  "c < length ts \<Longrightarrow>
   parser_advance ts c =
     (if eof_at ts c then Inr (parser_previous ts c, c) else Inr (Some (ts ! c), Suc c))"
  by (simp add: parser_advance_def isAtEnd_eval and_then_def parser_previous_def Let_def)

lemma synchronize_loop_returns:
  "eof_ahead ts c \<Longrightarrow> 0 < c \<or> eof_at ts c \<Longrightarrow> \<not> isl (synchronize_loop ts c)"
proof (induction "length ts - c" arbitrary: c rule: less_induct)
  case less
  have lt: "c < length ts" using less.prems(1) by (rule eof_ahead_lt)
  show ?case
  proof (cases "eof_at ts c")
    case True
    then show ?thesis
      using lt by (subst synchronize_loop.simps) (simp add: isAtEnd_eval and_then_Inr)
  next
    case False
    have ahead: "eof_ahead ts (Suc c)"
      using less.prems(1) False by (simp add: eof_ahead_Suc eof_at_def)
    have "\<not> isl (synchronize_loop ts (Suc c))"
      using lt ahead by (intro less.hyps) auto
    moreover have "c - Suc 0 < length ts" using lt by simp
    ultimately show ?thesis
      using lt False less.prems(2)
      by (subst synchronize_loop.simps)
         (simp add: isAtEnd_eval advance_eval and_then_Inr read_prop_def parser_previous_def
            parser_peek_def)
  qed
qed

lemma synchronize_returns: "eof_ahead ts c \<Longrightarrow> \<not> isl (synchronize ts c)"
proof -
  assume a: "eof_ahead ts c"
  have lt: "c < length ts" using a by (rule eof_ahead_lt)
  show ?thesis
  proof (cases "eof_at ts c")
    case True
    then show ?thesis
      using lt a by (simp add: synchronize_def advance_eval and_then_Inr synchronize_loop_returns)
  next
    case False
    have "eof_ahead ts (Suc c)" using a False by (simp add: eof_ahead_Suc eof_at_def)
    then show ?thesis
      using lt False by (simp add: synchronize_def advance_eval and_then_Inr synchronize_loop_returns)
  qed
qed

text \<open>
  What \<open>parseItem\<close> catches is thrown with an \<open>EOF\<close> token still ahead: every parsing
  method keeps the cursor at or before it.
\<close>

lemma try_catch_returns:
  assumes "good ts c r" "eof_ahead ts c"
    and "\<And>e c1. eof_ahead ts c1 \<Longrightarrow> \<not> isl (h e c1)"
  shows "\<not> isl (try_catch r h)"
proof (cases r)
  case (Inr v)
  then show ?thesis by (simp add: try_catch_def)
next
  case (Inl p)
  obtain e c1 where p: "p = (e, c1)" by (cases p)
  have "eof_ahead ts c1" using assms(1,2) Inl p by (simp add: good_def cursor_of_def)
  then show ?thesis using assms(3) Inl p by (simp add: try_catch_def)
qed

lemma and_then_returns:
  "\<not> isl r \<Longrightarrow> (\<And>x c. r = Inr (x, c) \<Longrightarrow> \<not> isl (f x c)) \<Longrightarrow> \<not> isl (and_then r f)"
  by (cases r) (auto simp: and_then_def)

lemma parseItem_returns: "eof_ahead ts c \<Longrightarrow> \<not> isl (parseItem ts c)"
  apply (subst parseItem.simps)
  apply (erule try_catch_returns [rotated])
   apply (rule and_then_returns)
    apply (erule synchronize_returns)
   apply simp
  apply (intro good_and_then good_match)
  apply (auto intro!: good_and_then simp: item_good(2))
  done

lemma parse_loop_returns: "eof_ahead ts c \<Longrightarrow> \<not> isl (parse_loop ts c its)"
proof (induction "length ts - c" arbitrary: c its rule: less_induct)
  case less
  have lt: "c < length ts" using less.prems by (rule eof_ahead_lt)
  show ?case
  proof (cases "eof_at ts c")
    case True
    then show ?thesis
      using lt by (subst parse_loop.simps) (simp add: isAtEnd_eval and_then_Inr)
  next
    case False
    show ?thesis
    proof (cases "tok_type (ts ! c) = TokenType_Newline")
      case True
      have "eof_ahead ts (Suc c)" using less.prems False by (simp add: eof_ahead_Suc eof_at_def)
      then have "\<not> isl (parse_loop ts (Suc c) its)"
        using lt by (intro less.hyps) auto
      then show ?thesis
        using lt False True
        by (subst parse_loop.simps) (simp add: isAtEnd_eval check_eval advance_eval and_then_Inr)
    next
      case nl: False
      obtain item c' where r: "parseItem ts c = Inr (item, c')"
        using parseItem_returns [OF less.prems] by (cases "parseItem ts c") auto
      have "c < c'" using item_good(1) [of ts c] r lt False by (rule adv_all_lt)
      moreover have "eof_ahead ts c'"
        using good_parseItem [of ts c] r less.prems by (simp add: good_def cursor_of_def)
      ultimately have "\<not> isl (parse_loop ts c' its')" for its'
        using lt by (intro less.hyps) auto
      then show ?thesis
        using lt False nl r
        by (subst parse_loop.simps) (simp add: isAtEnd_eval check_eval and_then_Inr)
    qed
  qed
qed

lemma last_EOF_ahead: "ts \<noteq> [] \<Longrightarrow> tok_type (last ts) = TokenType_EOF \<Longrightarrow> eof_ahead ts 0"
  unfolding eof_ahead_def by (rule exI [of _ "length ts - 1"]) (simp add: last_conv_nth)

lemma parse_returns:
  "ts \<noteq> [] \<Longrightarrow> tok_type (last ts) = TokenType_EOF \<Longrightarrow>
   \<exists>its. parse ts = Inr \<lparr>items = its, sf_location = \<lparr>loc_line = 1, loc_column = 1, loc_file = None\<rparr>\<rparr>"
  using parse_loop_returns [OF last_EOF_ahead, of ts "[]"]
  by (cases "parse_loop ts 0 []") (auto simp: parse_def)

text \<open>
  C10. On every token array that ends in an \<open>EOF\<close> token \<open>parse\<close> returns a \<open>SourceFile\<close>;
  no exception leaves it. (\<open>parse\<close> is a total function of the model: the loops of the
  parser terminate because every iteration moves the cursor towards the \<open>EOF\<close> token.)
\<close>

theorem parse_returns_SourceFile:
  "ts \<noteq> [] \<Longrightarrow> tok_type (last ts) = TokenType_EOF \<Longrightarrow>
   \<exists>its. parse ts = Inr \<lparr>items = its, sf_location = \<lparr>loc_line = 1, loc_column = 1, loc_file = None\<rparr>\<rparr>"
  by (rule parse_returns)

theorem parse_returns_SourceFile_witness:
  "parse [\<lparr>tok_type = TokenType_RightBrace, tok_value = ''}'', tok_line = 1, tok_column = 1, tok_start = 0, tok_end = 1\<rparr>,
          \<lparr>tok_type = TokenType_EOF, tok_value = '''', tok_line = 1, tok_column = 2, tok_start = 1, tok_end = 1\<rparr>]
     = Inr \<lparr>items = [], sf_location = \<lparr>loc_line = 1, loc_column = 1, loc_file = None\<rparr>\<rparr>
   \<and> tok_type (last [\<lparr>tok_type = TokenType_RightBrace, tok_value = ''}'', tok_line = 1, tok_column = 1, tok_start = 0, tok_end = 1\<rparr>,
          \<lparr>tok_type = TokenType_EOF, tok_value = '''', tok_line = 1, tok_column = 2, tok_start = 1, tok_end = 1\<rparr>])
       = TokenType_EOF"
proof -
  have h: "parse [\<lparr>tok_type = TokenType_RightBrace, tok_value = ''}'', tok_line = 1, tok_column = 1, tok_start = 0, tok_end = 1\<rparr>,
          \<lparr>tok_type = TokenType_EOF, tok_value = '''', tok_line = 1, tok_column = 2, tok_start = 1, tok_end = 1\<rparr>]
     = Inr \<lparr>items = [], sf_location = \<lparr>loc_line = 1, loc_column = 1, loc_file = None\<rparr>\<rparr>"
    by code_simp
  show ?thesis
    using h parse_returns_SourceFile
      [of "[\<lparr>tok_type = TokenType_RightBrace, tok_value = ''}'', tok_line = 1, tok_column = 1, tok_start = 0, tok_end = 1\<rparr>,
          \<lparr>tok_type = TokenType_EOF, tok_value = '''', tok_line = 1, tok_column = 2, tok_start = 1, tok_end = 1\<rparr>]"]
    by simp
qed

section \<open>Recovery from an item that fails to parse\<close>












section \<open>Nesting depth\<close>






























section \<open>Properties of the pipeline\<close>

lemma extractExports_createMinimalWASMModule:
  "extractExports createMinimalWASMModule = [''mapper'']"
  by code_simp

lemma compileToWASM_fallback:
  "compileToWASM new_AugustiumCompiler watCode = createMinimalWASMModule"
  by (simp add: compileToWASM_def new_AugustiumCompiler_def)

lemma compileMapping_module_iff_no_errors:
  "(wasmModule (compileMapping this Parser_parse src) = None)
     = (errors (compileMapping this Parser_parse src) \<noteq> [])"
  by (simp add: compileMapping_def compilation_failed_def Let_def split: sum.splits)

lemma compileMapping_fallback:
  "wasmModule (compileMapping new_AugustiumCompiler Parser_parse src) = None
     \<and> exports (compileMapping new_AugustiumCompiler Parser_parse src) = []
   \<or> wasmModule (compileMapping new_AugustiumCompiler Parser_parse src) = Some createMinimalWASMModule
     \<and> exports (compileMapping new_AugustiumCompiler Parser_parse src) = [''mapper'']"
  by (simp add: compileMapping_def compilation_failed_def Let_def compileToWASM_fallback
      extractExports_createMinimalWASMModule split: sum.splits)

lemma augustiumTypeToWASMType_Address: "augustiumTypeToWASMType ''Address'' = ''i64''"
  by (simp add: augustiumTypeToWASMType_def)

text \<open>
  Test data: the tree of \<open>struct Pool { id: Address, liquidity: u256 }\<close>, both field types
  primitive types of \<open>ast.ts\<close>, the tree without items, and the tree of
  \<open>struct A { x: u32 }\<close>.
\<close>

definition Pool_struct :: Struct where
  "Pool_struct =
     example_struct ''Pool''
       [example_field ''id'' (PrimitiveType ''Address'' (example_loc 1 19)) (example_loc 1 19),
        example_field ''liquidity'' (PrimitiveType ''u256'' (example_loc 1 39)) (example_loc 1 39)]
       (example_loc 1 45)"

definition Pool_tree :: SourceFile where
  "Pool_tree = \<lparr>items = [Struct_Item Pool_struct], sf_location = example_loc 1 1\<rparr>"

definition empty_tree :: SourceFile where
  "empty_tree = \<lparr>items = [], sf_location = example_loc 1 1\<rparr>"

definition A_tree :: SourceFile where
  "A_tree =
     \<lparr>items = [Struct_Item (example_struct ''A''
                  [example_field ''x'' (PrimitiveType ''u32'' (example_loc 1 15)) (example_loc 1 15)]
                  (example_loc 1 19))],
      sf_location = example_loc 1 1\<rparr>"

text \<open>
  C1 (as amended). For a struct \<open>Pool\<close> with the fields \<open>id: Address\<close> and
  \<open>liquidity: u256\<close>, \<open>generateStructWAT\<close> writes a function \<open>$create_Pool\<close> with the
  export name \<open>create_Pool\<close> and exactly two parameters, \<open>$id\<close> of type \<open>i64\<close> and then
  \<open>$liquidity\<close>. The export list of a compile result is not read from this text: with the
  \<open>null\<close> run time of the constructor \<open>compileToWASM\<close> returns the fallback module for every
  WAT text, and the exports of that module are \<open>[mapper]\<close>; so the export list of a compile,
  with whatever parser, is \<open>[mapper]\<close> when a module is returned and empty when none is.
\<close>

theorem create_Pool_WAT_and_exports:
  \<open>generateStructWAT
     (example_struct ''Pool''
        [example_field ''id'' (PrimitiveType ''Address'' l1) l2,
         example_field ''liquidity'' (PrimitiveType ''u256'' l3) l4] l5)
     = ''  ;; Struct: Pool\<newline>''
       @ ''  (func $create_Pool (export "create_Pool")\<newline>''
       @ ''    (param $id i64)\<newline>''
       @ ''    (param $liquidity '' @ augustiumTypeToWASMType ''u256'' @ '')\<newline>''
       @ ''    (result i32) ;; return pointer to struct\<newline>''
       @ ''    ;; TODO: Implement struct creation\<newline>''
       @ ''    i32.const 0 ;; placeholder\<newline>''
       @ ''  )\<newline>\<newline>''
   \<and> compileToWASM new_AugustiumCompiler watCode = createMinimalWASMModule
   \<and> extractExports (compileToWASM new_AugustiumCompiler watCode) = [''mapper'']
   \<and> exports (compileMapping new_AugustiumCompiler Parser_parse src)
       = (if wasmModule (compileMapping new_AugustiumCompiler Parser_parse src) = None then []
          else [''mapper''])\<close>
proof -
  have "exports (compileMapping new_AugustiumCompiler Parser_parse src)
       = (if wasmModule (compileMapping new_AugustiumCompiler Parser_parse src) = None then []
          else [''mapper''])"
    using compileMapping_fallback [of Parser_parse src] by auto
  then show ?thesis
    by (simp add: generateStructWAT_def generateStructWAT_run_def generateStructWAT_field_def
        example_struct_def example_field_def augustiumTypeToWASMType_Address Let_def
        compileToWASM_fallback extractExports_createMinimalWASMModule)
qed

text \<open>
  C1 (as stated) fails on the tree of \<open>struct Pool { id: Address, liquidity: u256 }\<close>. The
  tree has no validation error; the module that \<open>compileToWASM\<close> returns for its WAT text
  exports \<open>mapper\<close> and no \<open>create_Pool\<close>; and in the WAT text the parameter \<open>$liquidity\<close>
  has the type \<open>i32\<close>.
\<close>

theorem Pool_exports_counterexample:
  \<open>validateAST Pool_tree = []
   \<and> extractExports (compileToWASM new_AugustiumCompiler (generateWASMCode Pool_tree)) = [''mapper'']
   \<and> generateStructWAT Pool_struct
       = ''  ;; Struct: Pool\<newline>''
         @ ''  (func $create_Pool (export "create_Pool")\<newline>''
         @ ''    (param $id i64)\<newline>''
         @ ''    (param $liquidity i32)\<newline>''
         @ ''    (result i32) ;; return pointer to struct\<newline>''
         @ ''    ;; TODO: Implement struct creation\<newline>''
         @ ''    i32.const 0 ;; placeholder\<newline>''
         @ ''  )\<newline>\<newline>''\<close>
  by code_simp

text \<open>
  C3 (as amended). For every source and every parser: when the lexer throws, when the
  parser throws and when validation returns errors, the compile result has a list of
  diagnostics that is not empty (the one entry \<open>Compilation failed: <message>\<close>, or the
  validation errors), no module and no export; otherwise it has the module of
  \<open>compileToWASM\<close>, the exports of that module and an empty list of diagnostics. So the
  result has no module exactly when its list of diagnostics is not empty. The module is
  not made from the source: with the \<open>null\<close> run time of the constructor \<open>compileToWASM\<close>
  returns the fallback module for every WAT text.
\<close>

theorem compile_result_cases:
  "(tokenize src = Inl e \<longrightarrow>
      compileMapping this Parser_parse src
        = \<lparr>wasmModule = None, exports = [],
           errors = [\<lparr>err_message = ''Compilation failed: '' @ exn_message e,
                      err_line = None, err_column = None\<rparr>]\<rparr>)
   \<and> (tokenize src = Inr tokens \<and> Parser_parse tokens = Inl e \<longrightarrow>
      compileMapping this Parser_parse src
        = \<lparr>wasmModule = None, exports = [],
           errors = [\<lparr>err_message = ''Compilation failed: '' @ exn_message e,
                      err_line = None, err_column = None\<rparr>]\<rparr>)
   \<and> (tokenize src = Inr tokens \<and> Parser_parse tokens = Inr ast \<and> validateAST ast \<noteq> [] \<longrightarrow>
      compileMapping this Parser_parse src
        = \<lparr>wasmModule = None, exports = [], errors = validateAST ast\<rparr>)
   \<and> (tokenize src = Inr tokens \<and> Parser_parse tokens = Inr ast \<and> validateAST ast = [] \<longrightarrow>
      compileMapping this Parser_parse src
        = \<lparr>wasmModule = Some (compileToWASM this (generateWASMCode ast)),
           exports = extractExports (compileToWASM this (generateWASMCode ast)),
           errors = []\<rparr>)
   \<and> (wasmModule (compileMapping this Parser_parse src) = None)
       = (errors (compileMapping this Parser_parse src) \<noteq> [])
   \<and> compileToWASM new_AugustiumCompiler watCode = createMinimalWASMModule"
  using compileMapping_module_iff_no_errors [of this Parser_parse src]
  by (simp add: compileMapping_def compilation_failed_def Let_def compileToWASM_fallback)

text \<open>
  The four cases: the lexer throws on \<open>@\<close>; a parser throws; a parser returns a tree
  without a struct; a parser returns the tree of \<open>struct Pool\<close>.
\<close>

theorem compile_result_cases_witness:
  "compileMapping new_AugustiumCompiler (\<lambda>tokens. Inr Pool_tree) ''@''
     = \<lparr>wasmModule = None, exports = [],
        errors = [\<lparr>err_message = ''Compilation failed: Unexpected character '' @ [CHR 0x27] @ ''@''
                                   @ [CHR 0x27] @ '' at line 1, column 1'',
                   err_line = None, err_column = None\<rparr>]\<rparr>
   \<and> compileMapping new_AugustiumCompiler (\<lambda>tokens. Inl (Error ''Unexpected token'')) ''fn''
     = \<lparr>wasmModule = None, exports = [],
        errors = [\<lparr>err_message = ''Compilation failed: Unexpected token'',
                   err_line = None, err_column = None\<rparr>]\<rparr>
   \<and> compileMapping new_AugustiumCompiler (\<lambda>tokens. Inr empty_tree) ''fn''
     = \<lparr>wasmModule = None, exports = [],
        errors = [\<lparr>err_message = ''At least one struct declaration is required'',
                   err_line = None, err_column = None\<rparr>]\<rparr>
   \<and> compileMapping new_AugustiumCompiler (\<lambda>tokens. Inr Pool_tree)
       ''struct Pool { id: Address, liquidity: u256 }''
     = \<lparr>wasmModule = Some createMinimalWASMModule, exports = [''mapper''], errors = []\<rparr>"
proof -
  have t1: "tokenize ''@''
      = Inl (Error (''Unexpected character '' @ [CHR 0x27] @ ''@'' @ [CHR 0x27] @ '' at line 1, column 1''))"
    by code_simp
  have "\<not> isl (tokenize ''fn'')"
    by code_simp
  then obtain toks2 where t2: "tokenize ''fn'' = Inr toks2"
    by (cases "tokenize ''fn''") auto
  have "\<not> isl (tokenize ''struct Pool { id: Address, liquidity: u256 }'')"
    by code_simp
  then obtain toks3 where t3: "tokenize ''struct Pool { id: Address, liquidity: u256 }'' = Inr toks3"
    by (cases "tokenize ''struct Pool { id: Address, liquidity: u256 }''") auto
  have v2: "validateAST empty_tree
      = [\<lparr>err_message = ''At least one struct declaration is required'',
          err_line = None, err_column = None\<rparr>]"
    by code_simp
  have v3: "validateAST Pool_tree = []"
    by code_simp
  show ?thesis
    using
      compile_result_cases [where src = "''@''" and this = new_AugustiumCompiler
        and Parser_parse = "\<lambda>tokens. Inr Pool_tree"
        and e = "Error (''Unexpected character '' @ [CHR 0x27] @ ''@'' @ [CHR 0x27] @ '' at line 1, column 1'')"]
      compile_result_cases [where src = "''fn''" and this = new_AugustiumCompiler
        and Parser_parse = "\<lambda>tokens. Inl (Error ''Unexpected token'')"
        and tokens = toks2 and e = "Error ''Unexpected token''"]
      compile_result_cases [where src = "''fn''" and this = new_AugustiumCompiler
        and Parser_parse = "\<lambda>tokens. Inr empty_tree" and tokens = toks2 and ast = empty_tree]
      compile_result_cases [where src = "''struct Pool { id: Address, liquidity: u256 }''"
        and this = new_AugustiumCompiler and Parser_parse = "\<lambda>tokens. Inr Pool_tree"
        and tokens = toks3 and ast = Pool_tree]
    by (simp add: t1 t2 t3 v2 v3 exn_message_def compileToWASM_fallback
        extractExports_createMinimalWASMModule)
qed

text \<open>
  C3 (as stated) fails: the trees of \<open>struct Pool { id: Address, liquidity: u256 }\<close> and of
  \<open>struct A { x: u32 }\<close> have no validation error and different WAT texts, and
  \<open>compileToWASM\<close> returns for both the fallback module, whose one export is \<open>mapper\<close>: a
  module next to an empty list of diagnostics is a placeholder, not a compilation of the
  source.
\<close>

theorem placeholder_module_counterexample:
  "validateAST Pool_tree = [] \<and> validateAST A_tree = []
   \<and> generateWASMCode Pool_tree \<noteq> generateWASMCode A_tree
   \<and> compileToWASM new_AugustiumCompiler (generateWASMCode Pool_tree) = createMinimalWASMModule
   \<and> compileToWASM new_AugustiumCompiler (generateWASMCode A_tree) = createMinimalWASMModule
   \<and> extractExports createMinimalWASMModule = [''mapper'']"
  by code_simp

end
